theory Spec2Isabelle
  imports Complex_Main "HOL-Library.Word" "HOL-Library.Log_Nat"
begin

unbundle bit_operations_syntax

section \<open>CardPuter charge mode: data model\<close>

text \<open>
  The firmware is one Arduino sketch, \<^verbatim>\<open>cardputer_charge_mode.ino\<close>. Its global
  variables become the fields of a record, every call into the ESP-IDF or Arduino
  library that touches the hardware is appended to a trace of events, and every value the
  hardware or the library hands back (ADC samples, \<^verbatim>\<open>millis()\<close>, \<^verbatim>\<open>esp_err_t\<close> results)
  is an input of the model.
\<close>

type_synonym u8 = "8 word"
type_synonym u32 = "32 word"

text \<open>\<^verbatim>\<open>esp_err_t\<close> is a C \<^verbatim>\<open>int\<close>; the three codes the sketch names.\<close>

type_synonym esp_err_t = int

definition ESP_OK :: esp_err_t where
  "ESP_OK = 0"

definition ESP_FAIL :: esp_err_t where
  "ESP_FAIL = - 1"

definition ESP_ERR_INVALID_STATE :: esp_err_t where
  "ESP_ERR_INVALID_STATE = 259"

subsection \<open>Pin definitions and configuration (lines 28-45)\<close>

definition LED_PIN :: nat where
  "LED_PIN = 21"

definition LCD_BL_PIN :: nat where
  "LCD_BL_PIN = 38"

definition LCD_DC :: nat where
  "LCD_DC = 34"

definition LCD_RST :: nat where
  "LCD_RST = 33"

definition BATTERY_UPDATE_MS :: u32 where
  "BATTERY_UPDATE_MS = 10000"

definition MIN_BACKLIGHT_DUTY :: nat where
  "MIN_BACKLIGHT_DUTY = 5000"

subsection \<open>RMT symbols and the WS2812 encoder object (lines 117-123)\<close>

text \<open>
  \<^verbatim>\<open>rmt_symbol_word_t\<close>: two (level, duration) halves; durations count ticks of the
  channel's resolution.
\<close>

record rmt_symbol_word_t =
  level0 :: nat
  duration0 :: nat
  level1 :: nat
  duration1 :: nat

text \<open>\<^verbatim>\<open>rmt_bytes_encoder_config_t\<close>, the fields the sketch sets.\<close>

record rmt_bytes_encoder_config_t =
  bit0 :: rmt_symbol_word_t
  bit1 :: rmt_symbol_word_t
  msb_first :: bool

text \<open>
  The two library encoders the WS2812 encoder owns. Each keeps the position where an
  encoding that ran out of symbol memory stopped.
\<close>

record rmt_bytes_encoder =
  bytes_cfg :: rmt_bytes_encoder_config_t
  last_symbol :: nat

record rmt_copy_encoder =
  last_symbol_index :: nat

record ws2812_encoder_t =
  bytes_encoder :: rmt_bytes_encoder
  copy_encoder :: rmt_copy_encoder
  state :: int
  reset_code :: rmt_symbol_word_t

text \<open>\<^verbatim>\<open>rmt_tx_channel_config_t\<close> as \<^verbatim>\<open>setup\<close> fills it (lines 309-314).\<close>

record rmt_tx_channel =
  gpio_num :: nat
  resolution_hz :: nat
  mem_block_symbols :: nat
  trans_queue_depth :: nat

subsection \<open>Hardware events and the global state\<close>

datatype event =
    LedcTimerConfig nat nat
  | LedcChannelConfig nat nat
  | GpioSetDirection nat
  | GpioSetLevel nat nat
  | SpiTransmit u8
  | RmtTransmit "u8 list"
  | AnalogReadMilliVolts nat
  | Delay nat

text \<open>
  The globals of lines 51-60 (a NULL handle is \<open>None\<close>), the function-static
  \<^verbatim>\<open>last_update\<close> of \<^verbatim>\<open>loop\<close> (line 328), and the trace of hardware events so far.
  \<^verbatim>\<open>current_zone\<close> is a C \<^verbatim>\<open>int\<close> that is only ever assigned the constants
  \<open>-1, 0, 1, 2, 3\<close> and compared, so \<open>int\<close> models it without wrap-around.
\<close>

record globals =
  led_chan :: "rmt_tx_channel option"
  led_encoder :: "ws2812_encoder_t option"
  spi_lcd :: "unit option"
  current_zone :: int
  last_update :: u32
  trace :: "event list"

definition boot :: globals where
  "boot = \<lparr>led_chan = None, led_encoder = None, spi_lcd = None,
           current_zone = - 1, last_update = 0, trace = []\<rparr>"

definition emit :: "event list \<Rightarrow> globals \<Rightarrow> globals" where
  "emit es s = s\<lparr>trace := trace s @ es\<rparr>"

section \<open>Battery classifier\<close>

subsection \<open>\<^verbatim>\<open>getBatteryColor\<close> (lines 84-111)\<close>

text \<open>Lines 86-102: the zone chosen from the held zone and the level.\<close>

definition getBatteryColor_zone :: "int \<Rightarrow> int \<Rightarrow> int" where
  "getBatteryColor_zone cz level =
     (if cz = - 1 then
        (if level < 25 then 0
         else if level < 50 then 1
         else if level < 75 then 2
         else 3)
      else
        (if cz = 0 \<and> level \<ge> 28 then 1
         else if cz = 1 \<and> level < 22 then 0
         else if cz = 1 \<and> level \<ge> 53 then 2
         else if cz = 2 \<and> level < 47 then 1
         else if cz = 2 \<and> level \<ge> 78 then 3
         else if cz = 3 \<and> level < 72 then 2
         else cz))"

text \<open>Lines 105-110: the \<^verbatim>\<open>switch\<close> writing \<^verbatim>\<open>*r, *g, *b\<close>.\<close>

definition getBatteryColor_rgb :: "int \<Rightarrow> u8 \<times> u8 \<times> u8" where
  "getBatteryColor_rgb new_zone =
     (if new_zone = 0 then (255, 0, 0)
      else if new_zone = 1 then (255, 128, 0)
      else if new_zone = 2 then (255, 255, 0)
      else (0, 255, 0))"

definition getBatteryColor :: "int \<Rightarrow> globals \<Rightarrow> (u8 \<times> u8 \<times> u8) \<times> globals" where
  "getBatteryColor level s =
     (let new_zone = getBatteryColor_zone (current_zone s) level
      in (getBatteryColor_rgb new_zone, s\<lparr>current_zone := new_zone\<rparr>))"

text \<open>
  Successive calls of the classifier on a list of levels; the result is the zone held
  after each call.
\<close>

fun zones_after :: "int list \<Rightarrow> globals \<Rightarrow> int list" where
  "zones_after [] s = []"
| "zones_after (level # levels) s =
     (let s' = snd (getBatteryColor level s)
      in current_zone s' # zones_after levels s')"

subsection \<open>Single-precision arithmetic\<close>

text \<open>
  \<^verbatim>\<open>getBatteryLevel\<close> computes in C \<^verbatim>\<open>float\<close>. A finite binary32 value is a rational,
  and every binary32 operation is the exact operation followed by rounding to the nearest
  representable value, ties to the even significand. \<open>f32\<close> is that rounding: 24
  significant bits, gradual underflow below \<open>2 powi - 126\<close>. Overflow to infinity is left
  out: the values of \<^verbatim>\<open>getBatteryLevel\<close> come from a 32-bit sum and stay below \<open>2 ^ 30\<close>.
\<close>

definition round_even :: "rat \<Rightarrow> int" where
  "round_even q =
     (let f = \<lfloor>q\<rfloor>; d = q - of_int f
      in if d < 1 / 2 then f
         else if 1 / 2 < d then f + 1
         else if even f then f else f + 1)"

text \<open>For \<open>0 < x\<close>, the exponent \<open>e\<close> with \<open>2 powi e \<le> x < 2 powi (e + 1)\<close>.\<close>

definition binade :: "rat \<Rightarrow> int" where
  "binade x = (if 1 \<le> x then bitlen \<lfloor>x\<rfloor> - 1 else - bitlen (\<lceil>1 / x\<rceil> - 1))"

definition f32 :: "rat \<Rightarrow> rat" where
  "f32 x =
     (if x = 0 then 0
      else let e = max (binade \<bar>x\<bar>) (- 126); u = 2 powi (e - 23)
           in of_int (round_even (x / u)) * u)"

text \<open>Conversion of a \<^verbatim>\<open>float\<close> to \<^verbatim>\<open>int\<close> truncates towards zero.\<close>

definition float_to_int :: "rat \<Rightarrow> int" where
  "float_to_int x = (if 0 \<le> x then \<lfloor>x\<rfloor> else \<lceil>x\<rceil>)"

text \<open>C integer division truncates towards zero.\<close>

definition c_div :: "int \<Rightarrow> int \<Rightarrow> int" where
  "c_div a b = sgn a * sgn b * (\<bar>a\<bar> div \<bar>b\<bar>)"

text \<open>Arduino's \<^verbatim>\<open>constrain(amt, low, high)\<close> macro.\<close>

definition constrain :: "int \<Rightarrow> int \<Rightarrow> int \<Rightarrow> int" where
  "constrain amt low high = (if amt < low then low else if high < amt then high else amt)"

subsection \<open>\<^verbatim>\<open>getBatteryLevel\<close> (lines 67-77)\<close>

definition BATTERY_MIN_V :: rat where
  "BATTERY_MIN_V = f32 3"

definition BATTERY_MAX_V :: rat where
  "BATTERY_MAX_V = f32 (42 / 10)"

text \<open>
  Lines 68-72. \<^verbatim>\<open>analogReadMilliVolts\<close> returns a \<^verbatim>\<open>uint32_t\<close>; \<^verbatim>\<open>sum\<close> is a
  \<^verbatim>\<open>long\<close>, 32 bits on the ESP32-S3, so the additions wrap. \<open>adc i\<close> is the sample the
  \<open>i\<close>-th iteration reads.
\<close>

definition getBatteryLevel_sum :: "(nat \<Rightarrow> u32) \<Rightarrow> u32" where
  "getBatteryLevel_sum adc = fold (\<lambda>i sum. sum + adc i) [0..<8] 0"

text \<open>Line 73: \<^verbatim>\<open>(sum / 8) * 2.0f / 1000.0f\<close>, the quotient taken in \<^verbatim>\<open>long\<close>.\<close>

definition getBatteryLevel_voltage :: "(nat \<Rightarrow> u32) \<Rightarrow> rat" where
  "getBatteryLevel_voltage adc =
     f32 (f32 (f32 (of_int (c_div (sint (getBatteryLevel_sum adc)) 8)) * f32 2) / f32 1000)"

text \<open>
  Lines 75-76, as a function of the \<^verbatim>\<open>float voltage\<close>: the \<^verbatim>\<open>float\<close> value of the
  right-hand side of line 75, then its conversion to \<^verbatim>\<open>int\<close> and the clamp.
\<close>

definition getBatteryLevel_float :: "rat \<Rightarrow> rat" where
  "getBatteryLevel_float voltage =
     f32 (f32 (f32 (voltage - BATTERY_MIN_V) / f32 (BATTERY_MAX_V - BATTERY_MIN_V)) * f32 100)"

definition getBatteryLevel_level :: "rat \<Rightarrow> int" where
  "getBatteryLevel_level voltage =
     (let level = float_to_int (getBatteryLevel_float voltage)
      in constrain level 0 100)"

definition getBatteryLevel :: "(nat \<Rightarrow> u32) \<Rightarrow> globals \<Rightarrow> int \<times> globals" where
  "getBatteryLevel adc s =
     (getBatteryLevel_level (getBatteryLevel_voltage adc),
      emit (concat (replicate 8 [AnalogReadMilliVolts 10, Delay 5])) s)"

section \<open>WS2812 LED driver\<close>

subsection \<open>The library encoders\<close>

text \<open>
  \<^verbatim>\<open>rmt_encode_state_t\<close>, from the headers of the ESP-IDF RMT driver: a word of flags,
  which the sketch tests with \<^verbatim>\<open>&\<close> and sets with \<^verbatim>\<open>|\<close>.
\<close>

definition RMT_ENCODING_RESET :: u32 where
  "RMT_ENCODING_RESET = 0"

definition RMT_ENCODING_COMPLETE :: u32 where
  "RMT_ENCODING_COMPLETE = 1"

definition RMT_ENCODING_MEM_FULL :: u32 where
  "RMT_ENCODING_MEM_FULL = 2"

text \<open>
  Modelled from the spec: the symbols the library's bytes encoder makes of its input
  (section 4.1: each bit of each byte becomes one pulse, the symbol configured for a 0 or
  the one configured for a 1, most significant bit first when \<^verbatim>\<open>msb_first\<close> is set).
  \<open>byte_bits\<close> is the bits of a byte in the order they go out.
\<close>

definition byte_bits :: "bool \<Rightarrow> u8 \<Rightarrow> bool list" where
  "byte_bits msb b = (if msb then rev (map (bit b) [0..<8]) else map (bit b) [0..<8])"

definition bytes_symbols :: "rmt_bytes_encoder_config_t \<Rightarrow> u8 list \<Rightarrow> rmt_symbol_word_t list" where
  "bytes_symbols cfg data =
     map (\<lambda>b. if b then bit1 cfg else bit0 cfg) (concat (map (byte_bits (msb_first cfg)) data))"

text \<open>
  Modelled from the spec: what one \<^verbatim>\<open>encode\<close> call of a library encoder (library code,
  not in the repository) does with the symbols \<open>all\<close> of its
  whole input, resuming at \<open>pos\<close>, when the channel has room for \<open>mem_have\<close> symbols: the
  symbols written, the session state reported, and the position to resume at (0 once the
  input is done).
\<close>

definition rmt_encode_resume ::
  "rmt_symbol_word_t list \<Rightarrow> nat \<Rightarrow> nat \<Rightarrow> rmt_symbol_word_t list \<times> u32 \<times> nat" where
  "rmt_encode_resume all pos mem_have =
     (let mem_want = length all - pos;
          encode_len = min mem_want mem_have;
          truncated = mem_have < mem_want;
          st = (if truncated then RMT_ENCODING_RESET else RMT_ENCODING_COMPLETE);
          st' = (if mem_want < mem_have then st else st OR RMT_ENCODING_MEM_FULL)
      in (take encode_len (drop pos all), st', if truncated then pos + encode_len else 0))"

text \<open>
  Modelled from the spec: the bytes encoder of the ESP-IDF RMT driver
  (\<^verbatim>\<open>rmt_new_bytes_encoder\<close>, called through \<^verbatim>\<open>bytes_encoder->encode\<close>), which is library
  code and not in the repository. Section 4.1: each bit of each byte becomes one timed
  two-level pulse, most significant bit first; completion is signalled when all bytes are
  consumed and buffer-full when the symbol memory cannot hold the rest, the caller
  resuming in place. When the memory is used up exactly both flags are reported, the case
  the source's two flag tests in a row provide for.
\<close>

definition rmt_encode_bytes ::
  "rmt_bytes_encoder \<Rightarrow> nat \<Rightarrow> u8 list \<Rightarrow> rmt_symbol_word_t list \<times> u32 \<times> rmt_bytes_encoder" where
  "rmt_encode_bytes enc mem_have data =
     (case rmt_encode_resume (bytes_symbols (bytes_cfg enc) data) (last_symbol enc) mem_have of
        (syms, st, pos) \<Rightarrow> (syms, st, enc\<lparr>last_symbol := pos\<rparr>))"

text \<open>
  Modelled from the spec: the copy encoder of the ESP-IDF RMT driver
  (\<^verbatim>\<open>rmt_new_copy_encoder\<close>, called through \<^verbatim>\<open>copy_encoder->encode\<close>), library code as
  well. It writes the symbols it is given unchanged, with the same two flags.
\<close>

definition rmt_encode_copy ::
  "rmt_copy_encoder \<Rightarrow> nat \<Rightarrow> rmt_symbol_word_t list
     \<Rightarrow> rmt_symbol_word_t list \<times> u32 \<times> rmt_copy_encoder" where
  "rmt_encode_copy enc mem_have symbols =
     (case rmt_encode_resume symbols (last_symbol_index enc) mem_have of
        (syms, st, pos) \<Rightarrow> (syms, st, enc\<lparr>last_symbol_index := pos\<rparr>))"

subsection \<open>\<^verbatim>\<open>ws2812_encode\<close> (lines 125-145)\<close>

text \<open>
  \<open>mem\<close> is the number of symbols the channel's memory can still take when the call
  starts. The result is the symbols written (their number is the C return value), the
  state stored to \<^verbatim>\<open>*ret_state\<close>, and the encoder object after the call.

  \<open>ws2812_encode_case1\<close> is the code from label \<^verbatim>\<open>case 1\<close> on (lines 137-140), entered
  with the symbols written so far.
\<close>

definition ws2812_encode_case1 ::
  "ws2812_encoder_t \<Rightarrow> nat \<Rightarrow> rmt_symbol_word_t list
     \<Rightarrow> rmt_symbol_word_t list \<times> u32 \<times> ws2812_encoder_t" where
  "ws2812_encode_case1 ws mem encoded =
     (case rmt_encode_copy (copy_encoder ws) mem [reset_code ws] of
        (syms, session_state, ce) \<Rightarrow>
          (let ws1 = ws\<lparr>copy_encoder := ce\<rparr>;
               complete = (session_state AND RMT_ENCODING_COMPLETE \<noteq> 0);
               ws2 = (if complete then ws1\<lparr>state := uint RMT_ENCODING_RESET\<rparr> else ws1);
               state1 = (if complete then RMT_ENCODING_RESET OR RMT_ENCODING_COMPLETE
                         else RMT_ENCODING_RESET);
               state2 = (if session_state AND RMT_ENCODING_MEM_FULL \<noteq> 0
                         then state1 OR RMT_ENCODING_MEM_FULL else state1)
           in (encoded @ syms, state2, ws2)))"

definition ws2812_encode ::
  "ws2812_encoder_t \<Rightarrow> nat \<Rightarrow> u8 list \<Rightarrow> rmt_symbol_word_t list \<times> u32 \<times> ws2812_encoder_t" where
  "ws2812_encode ws mem data =
     (if state ws = 0 then
        (case rmt_encode_bytes (bytes_encoder ws) mem data of
           (syms, session_state, be) \<Rightarrow>
             (let ws1 = ws\<lparr>bytes_encoder := be\<rparr>;
                  ws2 = (if session_state AND RMT_ENCODING_COMPLETE \<noteq> 0
                         then ws1\<lparr>state := 1\<rparr> else ws1)
              in if session_state AND RMT_ENCODING_MEM_FULL \<noteq> 0
                 then (syms, RMT_ENCODING_RESET OR RMT_ENCODING_MEM_FULL, ws2)
                 else ws2812_encode_case1 ws2 (mem - length syms) syms))
      else if state ws = 1 then ws2812_encode_case1 ws mem []
      else ([], RMT_ENCODING_RESET, ws))"

subsection \<open>\<^verbatim>\<open>ws2812_encoder_new\<close> (lines 163-197)\<close>

text \<open>
  The three allocations can fail; whether they do is an input. \<open>Inl\<close> is the error
  returned, \<open>Inr\<close> the object stored to \<^verbatim>\<open>*ret_encoder\<close> with \<^verbatim>\<open>ESP_OK\<close>. \<^verbatim>\<open>calloc\<close>
  zeroes the object, so \<^verbatim>\<open>state\<close> starts at 0.
\<close>

definition ws2812_bytes_cfg :: rmt_bytes_encoder_config_t where
  "ws2812_bytes_cfg =
     \<lparr>bit0 = \<lparr>level0 = 1, duration0 = 3, level1 = 0, duration1 = 9\<rparr>,
      bit1 = \<lparr>level0 = 1, duration0 = 9, level1 = 0, duration1 = 3\<rparr>,
      msb_first = True\<rparr>"

definition ws2812_encoder_new :: "bool \<Rightarrow> esp_err_t \<Rightarrow> esp_err_t \<Rightarrow> esp_err_t + ws2812_encoder_t" where
  "ws2812_encoder_new calloc_ok new_bytes_encoder_ret new_copy_encoder_ret =
     (if \<not> calloc_ok then Inl ESP_FAIL
      else if new_bytes_encoder_ret \<noteq> ESP_OK then Inl ESP_FAIL
      else if new_copy_encoder_ret \<noteq> ESP_OK then Inl ESP_FAIL
      else Inr \<lparr>bytes_encoder = \<lparr>bytes_cfg = ws2812_bytes_cfg, last_symbol = 0\<rparr>,
                copy_encoder = \<lparr>last_symbol_index = 0\<rparr>,
                state = 0,
                reset_code = \<lparr>level0 = 0, duration0 = 400, level1 = 0, duration1 = 400\<rparr>\<rparr>)"

subsection \<open>\<^verbatim>\<open>setLedColor\<close> (lines 199-204)\<close>

definition setLedColor :: "u8 \<Rightarrow> u8 \<Rightarrow> u8 \<Rightarrow> globals \<Rightarrow> globals" where
  "setLedColor r g b s =
     (if led_chan s = None \<or> led_encoder s = None then s
      else emit [RmtTransmit [g, r, b]] s)"

subsection \<open>Reading the wire back\<close>

text \<open>
  The receiving side, for the round trip: a symbol is read by its nominal durations at
  the channel's resolution (300 ns high and 900 ns low is a 0, 900 ns high and 300 ns low
  is a 1, anything else is no bit), and eight bits, most significant first, make a byte.
\<close>

definition tick_ns :: "nat \<Rightarrow> nat" where
  "tick_ns hz = 1000000000 div hz"

definition ws2812_decode_bit :: "nat \<Rightarrow> rmt_symbol_word_t \<Rightarrow> bool option" where
  "ws2812_decode_bit hz symbol =
     (let high = duration0 symbol * tick_ns hz; low = duration1 symbol * tick_ns hz
      in if level0 symbol = 1 \<and> level1 symbol = 0 \<and> high = 300 \<and> low = 900 then Some False
         else if level0 symbol = 1 \<and> level1 symbol = 0 \<and> high = 900 \<and> low = 300 then Some True
         else None)"

definition ws2812_decode_byte :: "nat \<Rightarrow> rmt_symbol_word_t list \<Rightarrow> u8 option" where
  "ws2812_decode_byte hz syms =
     (let bits = map (ws2812_decode_bit hz) syms
      in if length syms = 8 \<and> None \<notin> set bits
         then Some (horner_sum of_bool 2 (rev (map the bits)))
         else None)"

fun ws2812_decode :: "nat \<Rightarrow> nat \<Rightarrow> rmt_symbol_word_t list \<Rightarrow> u8 list option" where
  "ws2812_decode hz 0 syms = (if syms = [] then Some [] else None)"
| "ws2812_decode hz (Suc n) syms =
     (case ws2812_decode_byte hz (take 8 syms) of
        None \<Rightarrow> None
      | Some b \<Rightarrow> map_option ((#) b) (ws2812_decode hz n (drop 8 syms)))"

section \<open>LCD control (ST7789)\<close>

subsection \<open>\<^verbatim>\<open>lcd_cmd\<close>, \<^verbatim>\<open>lcd_data\<close> (lines 210-226)\<close>

definition lcd_cmd :: "u8 \<Rightarrow> globals \<Rightarrow> globals" where
  "lcd_cmd cmd s =
     (if spi_lcd s = None then s
      else emit [GpioSetLevel LCD_DC 0, SpiTransmit cmd] s)"

definition lcd_data :: "u8 \<Rightarrow> globals \<Rightarrow> globals" where
  "lcd_data d s =
     (if spi_lcd s = None then s
      else emit [GpioSetLevel LCD_DC 1, SpiTransmit d] s)"

subsection \<open>\<^verbatim>\<open>lcd_sleep\<close> (lines 232-254)\<close>

definition lcd_sleep :: "globals \<Rightarrow> globals" where
  "lcd_sleep =
     emit [Delay 100] \<circ> lcd_cmd 0x10 \<circ>
     emit [Delay 10] \<circ> lcd_cmd 0x28 \<circ>
     lcd_data 0x60 \<circ> lcd_cmd 0x36 \<circ> lcd_data 0x55 \<circ> lcd_cmd 0x3A \<circ>
     emit [Delay 120] \<circ> lcd_cmd 0x11 \<circ>
     emit [GpioSetLevel LCD_RST 0, Delay 10, GpioSetLevel LCD_RST 1, Delay 120]"

section \<open>Setup and loop\<close>

text \<open>
  What the hardware and the library answer during \<^verbatim>\<open>setup\<close>: the results of the calls
  that can fail, and the ADC samples of the first measurement.
\<close>

record hw =
  spi_bus_initialize_ret :: esp_err_t
  spi_bus_add_device_ret :: esp_err_t
  rmt_new_tx_channel_ret :: esp_err_t
  calloc_ok :: bool
  rmt_new_bytes_encoder_ret :: esp_err_t
  rmt_new_copy_encoder_ret :: esp_err_t
  rmt_enable_ret :: esp_err_t
  adc :: "nat \<Rightarrow> u32"

subsection \<open>The classify and transmit cycle (lines 321-324 and 334-337)\<close>

definition update_led :: "(nat \<Rightarrow> u32) \<Rightarrow> globals \<Rightarrow> globals" where
  "update_led reads s =
     (case getBatteryLevel reads s of
        (level, s1) \<Rightarrow>
          (case getBatteryColor level s1 of
             ((r, g, b), s2) \<Rightarrow> setLedColor r g b s2))"

subsection \<open>\<^verbatim>\<open>setup\<close> (lines 260-325)\<close>

text \<open>Lines 261-278: the backlight PWM, 14-bit duty resolution at 1 kHz.\<close>

definition setup_backlight :: "globals \<Rightarrow> globals" where
  "setup_backlight = emit [LedcTimerConfig 14 1000, LedcChannelConfig LCD_BL_PIN MIN_BACKLIGHT_DUTY]"

text \<open>
  Lines 280-306: the SPI bus and the display. The library stores the device handle only
  when \<^verbatim>\<open>spi_bus_add_device\<close> succeeds.
\<close>

definition setup_lcd :: "hw \<Rightarrow> globals \<Rightarrow> globals" where
  "setup_lcd h s =
     (let s1 = emit [GpioSetDirection LCD_DC, GpioSetDirection LCD_RST] s;
          spi_err = spi_bus_initialize_ret h
      in if spi_err = ESP_OK \<or> spi_err = ESP_ERR_INVALID_STATE then
           (if spi_bus_add_device_ret h = ESP_OK
            then lcd_sleep (s1\<lparr>spi_lcd := Some ()\<rparr>)
            else s1)
         else s1)"

text \<open>
  Lines 308-324: the LED channel, with the three early returns, then the first
  classify and transmit. The library stores a handle only when the call succeeds.
\<close>

definition tx_cfg :: rmt_tx_channel where
  "tx_cfg = \<lparr>gpio_num = LED_PIN, resolution_hz = 10000000, mem_block_symbols = 64,
             trans_queue_depth = 4\<rparr>"

definition setup_led :: "hw \<Rightarrow> globals \<Rightarrow> globals" where
  "setup_led h s =
     (if rmt_new_tx_channel_ret h \<noteq> ESP_OK then s
      else
        let s1 = s\<lparr>led_chan := Some tx_cfg\<rparr>
        in case ws2812_encoder_new (calloc_ok h) (rmt_new_bytes_encoder_ret h)
                  (rmt_new_copy_encoder_ret h) of
             Inl err \<Rightarrow> s1
           | Inr encoder \<Rightarrow>
               let s2 = s1\<lparr>led_encoder := Some encoder\<rparr>
               in if rmt_enable_ret h \<noteq> ESP_OK then s2
                  else update_led (adc h) (emit [Delay 50] s2))"

text \<open>The whole function; \<open>setup\<close> is a keyword of Isabelle, hence the suffix.\<close>

definition setup_ino :: "hw \<Rightarrow> globals \<Rightarrow> globals" where
  "setup_ino h s = setup_led h (setup_lcd h (setup_backlight s))"

subsection \<open>\<^verbatim>\<open>loop\<close> (lines 327-341)\<close>

text \<open>
  One iteration. \<^verbatim>\<open>millis()\<close> is read twice, in the test (\<open>now\<close>) and in the
  assignment (\<open>now'\<close>); both are \<^verbatim>\<open>unsigned long\<close>, 32 bits, and the difference wraps.
\<close>

record tick =
  millis_test :: u32
  millis_store :: u32
  samples :: "nat \<Rightarrow> u32"

definition elapsed :: "tick \<Rightarrow> globals \<Rightarrow> u32" where
  "elapsed t s = millis_test t - last_update s"

definition loop :: "tick \<Rightarrow> globals \<Rightarrow> globals" where
  "loop t s =
     emit [Delay 100]
       (if elapsed t s > BATTERY_UPDATE_MS
        then update_led (samples t) (s\<lparr>last_update := millis_store t\<rparr>)
        else s)"

text \<open>The sketch's life: \<^verbatim>\<open>setup\<close> once, then \<^verbatim>\<open>loop\<close> for ever.\<close>

definition loops :: "tick list \<Rightarrow> globals \<Rightarrow> globals" where
  "loops ts s = fold loop ts s"

definition run :: "hw \<Rightarrow> tick list \<Rightarrow> globals" where
  "run h ts = loops ts (setup_ino h boot)"

subsection \<open>Reading the trace\<close>

text \<open>The duties written to the backlight channel, and the payloads sent to the LED.\<close>

fun backlight_write :: "event \<Rightarrow> nat option" where
  "backlight_write (LedcChannelConfig pin duty) = Some duty"
| "backlight_write _ = None"

definition backlight_writes :: "event list \<Rightarrow> nat list" where
  "backlight_writes es = List.map_filter backlight_write es"

fun led_payload :: "event \<Rightarrow> u8 list option" where
  "led_payload (RmtTransmit d) = Some d"
| "led_payload _ = None"

definition led_transmits :: "event list \<Rightarrow> u8 list list" where
  "led_transmits es = List.map_filter led_payload es"

fun spi_byte :: "event \<Rightarrow> u8 option" where
  "spi_byte (SpiTransmit d) = Some d"
| "spi_byte _ = None"

definition spi_transmits :: "event list \<Rightarrow> u8 list" where
  "spi_transmits es = List.map_filter spi_byte es"

fun adc_read :: "event \<Rightarrow> nat option" where
  "adc_read (AnalogReadMilliVolts pin) = Some pin"
| "adc_read _ = None"

definition adc_reads :: "event list \<Rightarrow> nat list" where
  "adc_reads es = List.map_filter adc_read es"

section \<open>Vocabulary of the statements\<close>

text \<open>The table of section 4.4 of the specification, as a finite map.\<close>

definition zone_color_table :: "int \<rightharpoonup> u8 \<times> u8 \<times> u8" where
  "zone_color_table =
     [0 \<mapsto> (255, 0, 0), 1 \<mapsto> (255, 128, 0), 2 \<mapsto> (255, 255, 0), 3 \<mapsto> (0, 255, 0)]"

text \<open>The level one measurement yields, and the events it leaves in the trace.\<close>

definition measured_level :: "(nat \<Rightarrow> u32) \<Rightarrow> int" where
  "measured_level reads = getBatteryLevel_level (getBatteryLevel_voltage reads)"

definition measurement :: "event list" where
  "measurement = concat (replicate 8 [AnalogReadMilliVolts 10, Delay 5])"

text \<open>Line 73 as a function of the \<^verbatim>\<open>long\<close> quotient \<^verbatim>\<open>sum / 8\<close>.\<close>

definition voltage_of_average :: "int \<Rightarrow> rat" where
  "voltage_of_average a = f32 (f32 (f32 (of_int a) * f32 2) / f32 1000)"

text \<open>Both LED handles are set; the three bytes of a colour in the order of the wire.\<close>

definition led_ready :: "globals \<Rightarrow> bool" where
  "led_ready s \<longleftrightarrow> led_chan s \<noteq> None \<and> led_encoder s \<noteq> None"

definition wire_order :: "u8 \<times> u8 \<times> u8 \<Rightarrow> u8 list" where
  "wire_order c = (case c of (r, g, b) \<Rightarrow> [g, r, b])"

text \<open>
  The display bus cannot be acquired: \<^verbatim>\<open>spi_bus_initialize\<close> fails with a code other than
  \<^verbatim>\<open>ESP_ERR_INVALID_STATE\<close>, or \<^verbatim>\<open>spi_bus_add_device\<close> fails. The LED path initialises:
  none of the three early returns of \<^verbatim>\<open>setup\<close> is taken.
\<close>

definition lcd_bus_failed :: "hw \<Rightarrow> bool" where
  "lcd_bus_failed h \<longleftrightarrow>
     \<not> (spi_bus_initialize_ret h = ESP_OK \<or> spi_bus_initialize_ret h = ESP_ERR_INVALID_STATE)
     \<or> spi_bus_add_device_ret h \<noteq> ESP_OK"

definition led_init_ok :: "hw \<Rightarrow> bool" where
  "led_init_ok h \<longleftrightarrow>
     rmt_new_tx_channel_ret h = ESP_OK \<and> calloc_ok h \<and> rmt_new_bytes_encoder_ret h = ESP_OK
     \<and> rmt_new_copy_encoder_ret h = ESP_OK \<and> rmt_enable_ret h = ESP_OK"

text \<open>The duty the backlight channel holds: the last one written, if any.\<close>

definition backlight_duty :: "event list \<Rightarrow> nat option" where
  "backlight_duty es = (case rev (backlight_writes es) of [] \<Rightarrow> None | d # ds \<Rightarrow> Some d)"

text \<open>The encoder object a successful \<^verbatim>\<open>ws2812_encoder_new\<close> stores.\<close>

definition ws2812_new :: ws2812_encoder_t where
  "ws2812_new = \<lparr>bytes_encoder = \<lparr>bytes_cfg = ws2812_bytes_cfg, last_symbol = 0\<rparr>,
                copy_encoder = \<lparr>last_symbol_index = 0\<rparr>,
                state = 0,
                reset_code = \<lparr>level0 = 0, duration0 = 400, level1 = 0, duration1 = 400\<rparr>\<rparr>"

text \<open>Concrete inputs: every sample reads the same millivolts; every call succeeds.\<close>

definition constant_samples :: "u32 \<Rightarrow> nat \<Rightarrow> u32" where
  "constant_samples mv i = mv"

definition hw_ok :: hw where
  "hw_ok = \<lparr>spi_bus_initialize_ret = ESP_OK, spi_bus_add_device_ret = ESP_OK,
            rmt_new_tx_channel_ret = ESP_OK, calloc_ok = True,
            rmt_new_bytes_encoder_ret = ESP_OK, rmt_new_copy_encoder_ret = ESP_OK,
            rmt_enable_ret = ESP_OK, adc = constant_samples 1800\<rparr>"

section \<open>Properties of the classifier\<close>

lemma getBatteryColor_fields [simp]:
  "trace (snd (getBatteryColor level s)) = trace s"
  "led_chan (snd (getBatteryColor level s)) = led_chan s"
  "led_encoder (snd (getBatteryColor level s)) = led_encoder s"
  "spi_lcd (snd (getBatteryColor level s)) = spi_lcd s"
  "last_update (snd (getBatteryColor level s)) = last_update s"
  "current_zone (snd (getBatteryColor level s)) = getBatteryColor_zone (current_zone s) level"
  "fst (getBatteryColor level s) = getBatteryColor_rgb (getBatteryColor_zone (current_zone s) level)"
  by (simp_all add: getBatteryColor_def Let_def)

text \<open>
  While the held zone is 0 or 1, levels 24 and 26 lie inside the band around the
  threshold 25 (at least 22, below 28): every call leaves the zone as it is.
\<close>

lemma zones_after_hold:
  "current_zone s \<in> {0, 1} \<Longrightarrow> set levels \<subseteq> {24, 26} \<Longrightarrow>
     zones_after levels s = replicate (length levels) (current_zone s)"
proof (induction levels arbitrary: s)
  case Nil
  then show ?case by simp
next
  case (Cons level levels)
  have "getBatteryColor_zone (current_zone s) level = current_zone s"
    using Cons.prems by (auto simp add: getBatteryColor_zone_def)
  with Cons show ?case by (simp add: Let_def)
qed

text \<open>
  C1, as stated: from the unset state the levels 10, 26, 52, 80, 70 yield the zones
  0, 0, 2, 3, 2. The code does not: the third call finds zone 0 held and level 52, and the
  first branch of the chain (line 96) sets zone 1; no branch adds more than one.
\<close>

theorem C1_counterexample:
  "zones_after [10, 26, 52, 80, 70] boot \<noteq> [0, 0, 2, 3, 2]"
  by (simp add: boot_def getBatteryColor_zone_def)

text \<open>
  C1, amended: from the unset state the levels 10, 26, 52, 80, 70 yield the zones
  0, 0, 1, 2, 2; once a zone is held, a call moves it by at most one, whatever the level.
\<close>

theorem C1_one_zone_per_call:
  "zones_after [10, 26, 52, 80, 70] boot = [0, 0, 1, 2, 2]
   \<and> (current_zone s \<noteq> - 1 \<longrightarrow>
        \<bar>current_zone (snd (getBatteryColor level s)) - current_zone s\<bar> \<le> 1)"
  by (simp add: boot_def getBatteryColor_zone_def)

text \<open>Zone 0 held and level 52: the call stops at zone 1.\<close>

theorem C1_one_zone_per_call_witness:
  "current_zone (boot\<lparr>current_zone := 0\<rparr>) \<noteq> - 1
   \<and> \<bar>current_zone (snd (getBatteryColor 52 (boot\<lparr>current_zone := 0\<rparr>))) - 0\<bar> \<le> 1
   \<and> current_zone (snd (getBatteryColor 52 (boot\<lparr>current_zone := 0\<rparr>))) = 1"
  using C1_one_zone_per_call [of "boot\<lparr>current_zone := 0\<rparr>" 52]
  by (simp add: boot_def getBatteryColor_zone_def)

text \<open>
  C7. With zone \<open>k\<close> held, the zone rises exactly when it rises by one, which happens
  exactly when \<open>k < 3\<close> and the level is at least the threshold \<open>25 * (k + 1)\<close> plus 3
  (from zone 0 at least 28); it falls exactly when it falls by one, which happens exactly
  when \<open>0 < k\<close> and the level is below the threshold \<open>25 * k\<close> minus 3 (from zone 1 below
  22). Consequently an input of readings 24 and 26 in any order, alternating or not, never
  changes the zone from its initial classification: whichever of 24 and 26 comes first is
  classified from the unset state, as zone 0 or as zone 1, and every reading after it
  leaves that zone; the same holds whenever zone 0 or zone 1 is the zone held.
\<close>

theorem C7_hysteresis_bands:
  "(current_zone s \<in> {0, 1, 2, 3} \<longrightarrow>
      (let k = current_zone s; k' = current_zone (snd (getBatteryColor level s))
       in (k < k' \<longleftrightarrow> k' = k + 1) \<and> (k' < k \<longleftrightarrow> k' = k - 1)
          \<and> (k' = k + 1 \<longleftrightarrow> k < 3 \<and> level \<ge> 25 * (k + 1) + 3)
          \<and> (k' = k - 1 \<longleftrightarrow> 0 < k \<and> level < 25 * k - 3)))
   \<and> (current_zone s \<in> {0, 1} \<and> set levels \<subseteq> {24, 26} \<longrightarrow>
        zones_after levels s = replicate (length levels) (current_zone s))
   \<and> (level \<in> {24, 26} \<and> set levels \<subseteq> {24, 26} \<longrightarrow>
        zones_after levels (snd (getBatteryColor level boot)) =
          replicate (length levels) (current_zone (snd (getBatteryColor level boot))))"
proof (intro conjI impI)
  assume "current_zone s \<in> {0, 1, 2, 3}"
  then show "let k = current_zone s; k' = current_zone (snd (getBatteryColor level s))
       in (k < k' \<longleftrightarrow> k' = k + 1) \<and> (k' < k \<longleftrightarrow> k' = k - 1)
          \<and> (k' = k + 1 \<longleftrightarrow> k < 3 \<and> level \<ge> 25 * (k + 1) + 3)
          \<and> (k' = k - 1 \<longleftrightarrow> 0 < k \<and> level < 25 * k - 3)"
    by (auto simp add: getBatteryColor_zone_def Let_def)
next
  assume "current_zone s \<in> {0, 1} \<and> set levels \<subseteq> {24, 26}"
  then show "zones_after levels s = replicate (length levels) (current_zone s)"
    by (simp add: zones_after_hold)
next
  assume a: "level \<in> {24, 26} \<and> set levels \<subseteq> {24, 26}"
  then have "current_zone (snd (getBatteryColor level boot)) \<in> {0, 1}"
    by (auto simp add: getBatteryColor_zone_def boot_def)
  with a show "zones_after levels (snd (getBatteryColor level boot)) =
          replicate (length levels) (current_zone (snd (getBatteryColor level boot)))"
    by (simp add: zones_after_hold)
qed

text \<open>
  Zone 1 held: level 53 advances to zone 2, and 24, 26, 24 keep zone 1, also when zone 1
  is the first classification of 26.
\<close>

theorem C7_hysteresis_bands_witness:
  "current_zone (boot\<lparr>current_zone := 1\<rparr>) \<in> {0, 1, 2, 3}
   \<and> current_zone (boot\<lparr>current_zone := 1\<rparr>) \<in> {0, 1}
   \<and> set [24, 26, 24] \<subseteq> {24, 26 :: int} \<and> (26 :: int) \<in> {24, 26}
   \<and> current_zone (snd (getBatteryColor 53 (boot\<lparr>current_zone := 1\<rparr>))) = 2
   \<and> zones_after [24, 26, 24] (boot\<lparr>current_zone := 1\<rparr>) = [1, 1, 1]
   \<and> zones_after [24, 26, 24] (snd (getBatteryColor 26 boot)) = [1, 1, 1]"
  using C7_hysteresis_bands [of "boot\<lparr>current_zone := 1\<rparr>" 53 "[24, 26, 24]"]
    C7_hysteresis_bands [of "boot\<lparr>current_zone := 1\<rparr>" 26 "[24, 26, 24]"]
  by (simp add: boot_def getBatteryColor_zone_def)

text \<open>
  C9: the colour \<^verbatim>\<open>getBatteryColor\<close> writes depends on the new zone alone, and on the
  zones 0, 1, 2, 3 it is the table (255,0,0), (255,128,0), (255,255,0), (0,255,0), whose
  domain is exactly these four zones; from any state the sketch can be in, the colour
  written is the table's entry for the zone then held.
\<close>

theorem C9_zone_color_table:
  "dom zone_color_table = {0, 1, 2, 3}
   \<and> (\<forall>z \<in> {0, 1, 2, 3}. zone_color_table z = Some (getBatteryColor_rgb z))
   \<and> fst (getBatteryColor level s) =
       getBatteryColor_rgb (current_zone (snd (getBatteryColor level s)))
   \<and> (current_zone s \<in> {- 1, 0, 1, 2, 3} \<longrightarrow>
        zone_color_table (current_zone (snd (getBatteryColor level s))) =
          Some (fst (getBatteryColor level s)))"
  by (auto simp add: zone_color_table_def getBatteryColor_rgb_def getBatteryColor_zone_def)

text \<open>Zone 1 is orange; a first reading of 60 is zone 2, yellow.\<close>

theorem C9_zone_color_table_witness:
  "(1 :: int) \<in> {0, 1, 2, 3} \<and> zone_color_table 1 = Some (255, 128, 0)
   \<and> current_zone boot \<in> {- 1, 0, 1, 2, 3}
   \<and> fst (getBatteryColor 60 boot) = (255, 255, 0)
   \<and> zone_color_table (current_zone (snd (getBatteryColor 60 boot))) = Some (255, 255, 0)"
  using C9_zone_color_table [of 60 boot]
  by (simp add: zone_color_table_def boot_def getBatteryColor_zone_def getBatteryColor_rgb_def)

section \<open>Properties of the trace\<close>

lemma trace_emit [simp]: "trace (emit es s) = trace s @ es"
  by (simp add: emit_def)

lemma emit_fields [simp]:
  "led_chan (emit es s) = led_chan s" "led_encoder (emit es s) = led_encoder s"
  "spi_lcd (emit es s) = spi_lcd s" "current_zone (emit es s) = current_zone s"
  "last_update (emit es s) = last_update s"
  by (simp_all add: emit_def)

lemma backlight_writes_simps [simp]:
  "backlight_writes [] = []"
  "backlight_writes (e # es) =
     (case backlight_write e of None \<Rightarrow> backlight_writes es | Some d \<Rightarrow> d # backlight_writes es)"
  "backlight_writes (es @ es') = backlight_writes es @ backlight_writes es'"
  by (simp_all add: backlight_writes_def List.map_filter_def split: option.splits)

lemma led_transmits_simps [simp]:
  "led_transmits [] = []"
  "led_transmits (e # es) =
     (case led_payload e of None \<Rightarrow> led_transmits es | Some d \<Rightarrow> d # led_transmits es)"
  "led_transmits (es @ es') = led_transmits es @ led_transmits es'"
  by (simp_all add: led_transmits_def List.map_filter_def split: option.splits)

lemma spi_transmits_simps [simp]:
  "spi_transmits [] = []"
  "spi_transmits (e # es) =
     (case spi_byte e of None \<Rightarrow> spi_transmits es | Some d \<Rightarrow> d # spi_transmits es)"
  "spi_transmits (es @ es') = spi_transmits es @ spi_transmits es'"
  by (simp_all add: spi_transmits_def List.map_filter_def split: option.splits)

lemma adc_reads_simps [simp]:
  "adc_reads [] = []"
  "adc_reads (e # es) =
     (case adc_read e of None \<Rightarrow> adc_reads es | Some d \<Rightarrow> d # adc_reads es)"
  "adc_reads (es @ es') = adc_reads es @ adc_reads es'"
  by (simp_all add: adc_reads_def List.map_filter_def split: option.splits)

lemma measurement_reads [simp]:
  "backlight_writes measurement = []" "led_transmits measurement = []"
  "spi_transmits measurement = []" "adc_reads measurement = replicate 8 10"
  by (simp_all add: measurement_def eval_nat_numeral)

lemma getBatteryLevel_state:
  "snd (getBatteryLevel reads s) = emit measurement s"
  by (simp add: getBatteryLevel_def measurement_def)

lemma setLedColor_fields [simp]:
  "led_chan (setLedColor r g b s) = led_chan s"
  "led_encoder (setLedColor r g b s) = led_encoder s"
  "spi_lcd (setLedColor r g b s) = spi_lcd s"
  "current_zone (setLedColor r g b s) = current_zone s"
  "last_update (setLedColor r g b s) = last_update s"
  by (simp_all add: setLedColor_def)

lemma trace_setLedColor:
  "trace (setLedColor r g b s) = trace s @ (if led_ready s then [RmtTransmit [g, r, b]] else [])"
  by (simp add: setLedColor_def led_ready_def)

lemma update_led_eq:
  "update_led reads s =
     (let z = getBatteryColor_zone (current_zone s) (measured_level reads)
      in case getBatteryColor_rgb z of
           (r, g, b) \<Rightarrow> setLedColor r g b (emit measurement s\<lparr>current_zone := z\<rparr>))"
  by (simp add: update_led_def getBatteryLevel_def getBatteryColor_def Let_def measured_level_def
      measurement_def emit_def split: prod.splits)

lemma update_led_fields [simp]:
  "led_chan (update_led reads s) = led_chan s"
  "led_encoder (update_led reads s) = led_encoder s"
  "spi_lcd (update_led reads s) = spi_lcd s"
  "last_update (update_led reads s) = last_update s"
  "current_zone (update_led reads s) = getBatteryColor_zone (current_zone s) (measured_level reads)"
  by (simp_all add: update_led_eq Let_def split: prod.splits)

lemma trace_update_led:
  "trace (update_led reads s) =
     trace s @ measurement
       @ (if led_ready s
          then [RmtTransmit (wire_order (getBatteryColor_rgb (current_zone (update_led reads s))))]
          else [])"
  by (simp add: update_led_eq Let_def trace_setLedColor led_ready_def wire_order_def
      split: prod.splits)

lemma loop_idle: "elapsed t s \<le> BATTERY_UPDATE_MS \<Longrightarrow> loop t s = emit [Delay 100] s"
  by (simp add: loop_def not_less)

lemma loop_fire:
  "BATTERY_UPDATE_MS < elapsed t s \<Longrightarrow>
     loop t s = emit [Delay 100] (update_led (samples t) (s\<lparr>last_update := millis_store t\<rparr>))"
  by (simp add: loop_def)

lemma lcd_cmd_data_trace:
  "trace (lcd_cmd c s) = trace s @ (if spi_lcd s = None then [] else [GpioSetLevel LCD_DC 0, SpiTransmit c])"
  "trace (lcd_data d s) = trace s @ (if spi_lcd s = None then [] else [GpioSetLevel LCD_DC 1, SpiTransmit d])"
  by (simp_all add: lcd_cmd_def lcd_data_def)

lemma lcd_cmd_data_fields [simp]:
  "spi_lcd (lcd_cmd c s) = spi_lcd s" "spi_lcd (lcd_data d s) = spi_lcd s"
  "led_chan (lcd_cmd c s) = led_chan s" "led_chan (lcd_data d s) = led_chan s"
  "led_encoder (lcd_cmd c s) = led_encoder s" "led_encoder (lcd_data d s) = led_encoder s"
  "current_zone (lcd_cmd c s) = current_zone s" "current_zone (lcd_data d s) = current_zone s"
  "last_update (lcd_cmd c s) = last_update s" "last_update (lcd_data d s) = last_update s"
  by (simp_all add: lcd_cmd_def lcd_data_def)

lemma backlight_lcd_cmd_data [simp]:
  "backlight_writes (trace (lcd_cmd c s)) = backlight_writes (trace s)"
  "backlight_writes (trace (lcd_data d s)) = backlight_writes (trace s)"
  by (simp_all add: lcd_cmd_data_trace)

lemma lcd_sleep_fields [simp]:
  "spi_lcd (lcd_sleep s) = spi_lcd s" "led_chan (lcd_sleep s) = led_chan s"
  "led_encoder (lcd_sleep s) = led_encoder s" "current_zone (lcd_sleep s) = current_zone s"
  "last_update (lcd_sleep s) = last_update s"
  by (simp_all add: lcd_sleep_def)

lemma backlight_lcd_sleep [simp]:
  "backlight_writes (trace (lcd_sleep s)) = backlight_writes (trace s)"
  by (simp add: lcd_sleep_def)

lemma backlight_update_led [simp]:
  "backlight_writes (trace (update_led reads s)) = backlight_writes (trace s)"
  by (simp add: trace_update_led)

lemma backlight_loop [simp]:
  "backlight_writes (trace (loop t s)) = backlight_writes (trace s)"
  by (simp add: loop_def)

lemma backlight_loops [simp]:
  "backlight_writes (trace (loops ts s)) = backlight_writes (trace s)"
  unfolding loops_def by (induction ts arbitrary: s) simp_all

lemma backlight_setup_lcd [simp]:
  "backlight_writes (trace (setup_lcd h s)) = backlight_writes (trace s)"
  by (simp add: setup_lcd_def Let_def)

lemma backlight_setup_led [simp]:
  "backlight_writes (trace (setup_led h s)) = backlight_writes (trace s)"
  by (simp add: setup_led_def Let_def split: sum.splits)

lemma backlight_setup:
  "backlight_writes (trace (setup_ino h s)) = backlight_writes (trace s) @ [MIN_BACKLIGHT_DUTY]"
  by (simp add: setup_ino_def setup_backlight_def)

lemma level_1800: "measured_level (constant_samples 1800) = 50"
  unfolding measured_level_def by code_simp

lemma setup_ok_state:
  "led_ready (setup_ino hw_ok boot) \<and> last_update (setup_ino hw_ok boot) = 0
   \<and> current_zone (setup_ino hw_ok boot) = 2
   \<and> led_transmits (trace (setup_ino hw_ok boot)) = [[255, 255, 0]]"
  by (simp add: setup_ino_def setup_led_def hw_ok_def ESP_OK_def ws2812_encoder_new_def
      led_ready_def Let_def boot_def setup_lcd_def setup_backlight_def lcd_sleep_def lcd_cmd_def
      lcd_data_def level_1800 getBatteryColor_zone_def trace_update_led getBatteryColor_rgb_def wire_order_def)

section \<open>Properties of the scheduler and of startup\<close>

text \<open>
  C10: when both LED handles are set, \<^verbatim>\<open>setLedColor r g b\<close> hands exactly one payload to
  the channel, the three bytes green, red, blue in this order.
\<close>

theorem C10_grb_order:
  "led_chan s \<noteq> None \<and> led_encoder s \<noteq> None \<longrightarrow>
     trace (setLedColor r g b s) = trace s @ [RmtTransmit [g, r, b]]
     \<and> led_transmits (trace (setLedColor r g b s)) = led_transmits (trace s) @ [[g, r, b]]"
  by (simp add: setLedColor_def)

text \<open>Orange, (255, 128, 0), goes out as 128, 255, 0.\<close>

theorem C10_grb_order_witness:
  "led_chan (boot\<lparr>led_chan := Some tx_cfg, led_encoder := Some ws2812_new\<rparr>) \<noteq> None
   \<and> led_encoder (boot\<lparr>led_chan := Some tx_cfg, led_encoder := Some ws2812_new\<rparr>) \<noteq> None
   \<and> trace (setLedColor 255 128 0 (boot\<lparr>led_chan := Some tx_cfg, led_encoder := Some ws2812_new\<rparr>))
       = [RmtTransmit [128, 255, 0]]"
  using C10_grb_order [of "boot\<lparr>led_chan := Some tx_cfg, led_encoder := Some ws2812_new\<rparr>" 255 128 0]
  by (simp add: boot_def)

text \<open>
  C2, as stated, has a classify and transmit whenever the elapsed time is at least
  10,000 ms. The test of line 331 is strict: after a startup in which everything
  succeeded, an iteration that reads \<^verbatim>\<open>millis()\<close> as 10000 finds exactly 10,000 ms elapsed
  and does nothing but its delay: no sample is read, nothing is transmitted, and
  \<^verbatim>\<open>last_update\<close> stays 0.
\<close>

theorem C2_counterexample:
  "elapsed \<lparr>millis_test = 10000, millis_store = 10000, samples = constant_samples 1800\<rparr>
      (setup_ino hw_ok boot) = 10000
   \<and> led_ready (setup_ino hw_ok boot)
   \<and> led_transmits (trace (loop \<lparr>millis_test = 10000, millis_store = 10000,
          samples = constant_samples 1800\<rparr> (setup_ino hw_ok boot)))
       = led_transmits (trace (setup_ino hw_ok boot))
   \<and> adc_reads (trace (loop \<lparr>millis_test = 10000, millis_store = 10000,
          samples = constant_samples 1800\<rparr> (setup_ino hw_ok boot)))
       = adc_reads (trace (setup_ino hw_ok boot))
   \<and> last_update (loop \<lparr>millis_test = 10000, millis_store = 10000,
          samples = constant_samples 1800\<rparr> (setup_ino hw_ok boot)) = 0"
  by (simp add: setup_ok_state elapsed_def loop_def BATTERY_UPDATE_MS_def)

text \<open>
  C2, amended. In every iteration, if the elapsed time is at most 10,000 ms then no
  classify and transmit occurs and \<^verbatim>\<open>last_update\<close> is kept; if it is strictly greater than
  10,000 ms then \<^verbatim>\<open>last_update\<close> is reset to the second reading of \<^verbatim>\<open>millis()\<close>, exactly
  one measurement of eight samples is taken and classified, and, the LED handles being set,
  exactly one payload is transmitted, the colour of the zone then held; an iteration that
  follows within 10,000 ms of the reset transmits nothing.
\<close>

theorem C2_update_strictly_after_interval:
  "(elapsed t s \<le> BATTERY_UPDATE_MS \<longrightarrow>
      loop t s = emit [Delay 100] s
      \<and> led_transmits (trace (loop t s)) = led_transmits (trace s)
      \<and> adc_reads (trace (loop t s)) = adc_reads (trace s)
      \<and> current_zone (loop t s) = current_zone s
      \<and> last_update (loop t s) = last_update s)
   \<and> (BATTERY_UPDATE_MS < elapsed t s \<longrightarrow>
      last_update (loop t s) = millis_store t
      \<and> adc_reads (trace (loop t s)) = adc_reads (trace s) @ replicate 8 10
      \<and> current_zone (loop t s) = getBatteryColor_zone (current_zone s) (measured_level (samples t))
      \<and> (led_ready s \<longrightarrow>
           led_transmits (trace (loop t s)) =
             led_transmits (trace s) @ [wire_order (getBatteryColor_rgb (current_zone (loop t s)))])
      \<and> (millis_test t' - millis_store t \<le> BATTERY_UPDATE_MS \<longrightarrow>
           led_transmits (trace (loop t' (loop t s))) = led_transmits (trace (loop t s))))"
proof (intro conjI impI)
  assume idle: "elapsed t s \<le> BATTERY_UPDATE_MS"
  show "loop t s = emit [Delay 100] s"
    using idle by (rule loop_idle)
  then show "led_transmits (trace (loop t s)) = led_transmits (trace s)"
    and "adc_reads (trace (loop t s)) = adc_reads (trace s)"
    and "current_zone (loop t s) = current_zone s"
    and "last_update (loop t s) = last_update s"
    by simp_all
next
  assume fire: "BATTERY_UPDATE_MS < elapsed t s"
  note eq = loop_fire [OF fire]
  show lu: "last_update (loop t s) = millis_store t"
    by (simp add: eq)
  show "adc_reads (trace (loop t s)) = adc_reads (trace s) @ replicate 8 10"
    by (simp add: eq trace_update_led)
  show "current_zone (loop t s) = getBatteryColor_zone (current_zone s) (measured_level (samples t))"
    by (simp add: eq)
  {
    assume "led_ready s"
    then show "led_transmits (trace (loop t s)) =
             led_transmits (trace s) @ [wire_order (getBatteryColor_rgb (current_zone (loop t s)))]"
      by (simp add: eq trace_update_led led_ready_def)
  }
  {
    assume "millis_test t' - millis_store t \<le> BATTERY_UPDATE_MS"
    then have "elapsed t' (loop t s) \<le> BATTERY_UPDATE_MS"
      by (simp add: elapsed_def lu)
    then show "led_transmits (trace (loop t' (loop t s))) = led_transmits (trace (loop t s))"
      by (simp add: loop_idle)
  }
qed

text \<open>
  After a startup in which everything succeeded: 10,000 ms elapsed is idle, 10,001 ms
  fires once, and 10,000 ms after the reset to 10002 is idle again.
\<close>

theorem C2_update_strictly_after_interval_witness:
  "elapsed \<lparr>millis_test = 10000, millis_store = 10000, samples = constant_samples 1800\<rparr>
      (setup_ino hw_ok boot) \<le> BATTERY_UPDATE_MS
   \<and> BATTERY_UPDATE_MS < elapsed \<lparr>millis_test = 10001, millis_store = 10002, samples = constant_samples 1800\<rparr>
      (setup_ino hw_ok boot)
   \<and> led_ready (setup_ino hw_ok boot)
   \<and> millis_test \<lparr>millis_test = 20002, millis_store = 20002, samples = constant_samples 1800\<rparr>
        - millis_store \<lparr>millis_test = 10001, millis_store = 10002, samples = constant_samples 1800\<rparr> \<le> BATTERY_UPDATE_MS
   \<and> led_transmits (trace (loop \<lparr>millis_test = 10000, millis_store = 10000,
          samples = constant_samples 1800\<rparr> (setup_ino hw_ok boot))) = [[255, 255, 0]]
   \<and> led_transmits (trace (loop \<lparr>millis_test = 10001, millis_store = 10002,
          samples = constant_samples 1800\<rparr> (setup_ino hw_ok boot))) = [[255, 255, 0], [255, 255, 0]]
   \<and> led_transmits (trace (loop \<lparr>millis_test = 20002, millis_store = 20002, samples = constant_samples 1800\<rparr> (loop \<lparr>millis_test = 10001, millis_store = 10002,
          samples = constant_samples 1800\<rparr> (setup_ino hw_ok boot)))) = [[255, 255, 0], [255, 255, 0]]
   \<and> last_update (loop \<lparr>millis_test = 10001, millis_store = 10002,
          samples = constant_samples 1800\<rparr> (setup_ino hw_ok boot)) = 10002"
  using C2_update_strictly_after_interval [of
      "\<lparr>millis_test = 10000, millis_store = 10000, samples = constant_samples 1800\<rparr>"
      "setup_ino hw_ok boot"]
    C2_update_strictly_after_interval [of
      "\<lparr>millis_test = 10001, millis_store = 10002, samples = constant_samples 1800\<rparr>"
      "setup_ino hw_ok boot"
      "\<lparr>millis_test = 20002, millis_store = 20002, samples = constant_samples 1800\<rparr>"]
  by (simp add: setup_ok_state elapsed_def BATTERY_UPDATE_MS_def level_1800
      getBatteryColor_zone_def getBatteryColor_rgb_def wire_order_def)

text \<open>
  C3: \<^verbatim>\<open>setup\<close> writes the backlight duty exactly once, to \<^verbatim>\<open>MIN_BACKLIGHT_DUTY\<close>, which
  is 5000, below \<open>2 ^ 14\<close> and 30 percent of it; \<^verbatim>\<open>lcd_sleep\<close>, \<^verbatim>\<open>getBatteryLevel\<close>,
  \<^verbatim>\<open>getBatteryColor\<close>, \<^verbatim>\<open>setLedColor\<close> and \<^verbatim>\<open>loop\<close> never write it; hence after startup
  and any number of iterations, whatever the hardware answered, the trace holds that one
  write and the duty is the minimum.
\<close>

theorem C3_backlight_written_once:
  "backlight_writes (trace (setup_ino h boot)) = [MIN_BACKLIGHT_DUTY]
   \<and> MIN_BACKLIGHT_DUTY = 5000 \<and> MIN_BACKLIGHT_DUTY < 2 ^ 14
   \<and> MIN_BACKLIGHT_DUTY * 100 div 2 ^ 14 = 30
   \<and> backlight_writes (trace (lcd_sleep s)) = backlight_writes (trace s)
   \<and> backlight_writes (trace (snd (getBatteryLevel reads s))) = backlight_writes (trace s)
   \<and> backlight_writes (trace (snd (getBatteryColor level s))) = backlight_writes (trace s)
   \<and> backlight_writes (trace (setLedColor r g b s)) = backlight_writes (trace s)
   \<and> backlight_writes (trace (loop t s)) = backlight_writes (trace s)
   \<and> backlight_writes (trace (run h ts)) = [MIN_BACKLIGHT_DUTY]
   \<and> backlight_duty (trace (run h ts)) = Some MIN_BACKLIGHT_DUTY"
proof -
  have once: "backlight_writes (trace (setup_ino h boot)) = [MIN_BACKLIGHT_DUTY]"
    by (simp add: backlight_setup boot_def)
  then have life: "backlight_writes (trace (run h ts)) = [MIN_BACKLIGHT_DUTY]"
    by (simp add: run_def)
  have duty: "MIN_BACKLIGHT_DUTY = 5000 \<and> MIN_BACKLIGHT_DUTY < 2 ^ 14
      \<and> MIN_BACKLIGHT_DUTY * 100 div 2 ^ 14 = 30"
    by (simp add: MIN_BACKLIGHT_DUTY_def)
  have frame: "backlight_writes (trace (snd (getBatteryLevel reads s))) = backlight_writes (trace s)"
    "backlight_writes (trace (setLedColor r g b s)) = backlight_writes (trace s)"
    by (simp_all add: getBatteryLevel_state trace_setLedColor)
  show ?thesis
    using once life duty frame by (simp add: backlight_duty_def)
qed

text \<open>
  C8. Without both LED handles \<^verbatim>\<open>setLedColor\<close> changes nothing, and without a display
  device \<^verbatim>\<open>lcd_cmd\<close> and \<^verbatim>\<open>lcd_data\<close> change nothing. When the display bus cannot be
  acquired, \<^verbatim>\<open>setup\<close> leaves the device handle NULL and sends nothing to the display;
  the LED path initialising, \<^verbatim>\<open>setup\<close> then does no more than configure the backlight and
  the two pins, wait, take one measurement, classify it from the unset state and transmit
  that colour once.
\<close>

theorem C8_init_failures_degrade:
  "(\<not> led_ready s \<longrightarrow> setLedColor r g b s = s)
   \<and> (spi_lcd s = None \<longrightarrow> lcd_cmd c s = s \<and> lcd_data d s = s)
   \<and> (lcd_bus_failed h \<longrightarrow>
        spi_lcd (setup_ino h boot) = None
        \<and> spi_transmits (trace (setup_ino h boot)) = []
        \<and> (led_init_ok h \<longrightarrow>
             led_ready (setup_ino h boot)
             \<and> current_zone (setup_ino h boot) = getBatteryColor_zone (- 1) (measured_level (adc h))
             \<and> trace (setup_ino h boot) =
                 [LedcTimerConfig 14 1000, LedcChannelConfig LCD_BL_PIN MIN_BACKLIGHT_DUTY,
                  GpioSetDirection LCD_DC, GpioSetDirection LCD_RST, Delay 50]
                 @ measurement
                 @ [RmtTransmit (wire_order (getBatteryColor_rgb (current_zone (setup_ino h boot))))]
             \<and> length (led_transmits (trace (setup_ino h boot))) = 1))"
proof (intro conjI impI)
  assume "\<not> led_ready s"
  then show "setLedColor r g b s = s"
    by (auto simp add: setLedColor_def led_ready_def)
next
  assume "spi_lcd s = None"
  then show "lcd_cmd c s = s" and "lcd_data d s = s"
    by (simp_all add: lcd_cmd_def lcd_data_def)
next
  assume failed: "lcd_bus_failed h"
  then have lcd: "setup_lcd h s' = emit [GpioSetDirection LCD_DC, GpioSetDirection LCD_RST] s'" for s'
    by (auto simp add: setup_lcd_def lcd_bus_failed_def Let_def)
  have led_spi: "spi_lcd (setup_led h s') = spi_lcd s'
      \<and> spi_transmits (trace (setup_led h s')) = spi_transmits (trace s')" for s'
    by (simp add: setup_led_def Let_def trace_update_led split: sum.splits)
  show "spi_lcd (setup_ino h boot) = None"
    by (simp add: setup_ino_def lcd led_spi setup_backlight_def boot_def)
  show "spi_transmits (trace (setup_ino h boot)) = []"
    by (simp add: setup_ino_def lcd led_spi setup_backlight_def boot_def)
  assume ok: "led_init_ok h"
  then have led: "setup_led h s' =
      update_led (adc h) (emit [Delay 50]
        (s'\<lparr>led_chan := Some tx_cfg,
            led_encoder := Some \<lparr>bytes_encoder = \<lparr>bytes_cfg = ws2812_bytes_cfg, last_symbol = 0\<rparr>,
                copy_encoder = \<lparr>last_symbol_index = 0\<rparr>, state = 0,
                reset_code = \<lparr>level0 = 0, duration0 = 400, level1 = 0, duration1 = 400\<rparr>\<rparr>\<rparr>))" for s'
    by (simp add: setup_led_def led_init_ok_def ws2812_encoder_new_def Let_def)
  show ready: "led_ready (setup_ino h boot)"
    by (simp add: setup_ino_def led led_ready_def)
  show "current_zone (setup_ino h boot) = getBatteryColor_zone (- 1) (measured_level (adc h))"
    by (simp add: setup_ino_def led lcd setup_backlight_def boot_def)
  show tr: "trace (setup_ino h boot) =
                 [LedcTimerConfig 14 1000, LedcChannelConfig LCD_BL_PIN MIN_BACKLIGHT_DUTY,
                  GpioSetDirection LCD_DC, GpioSetDirection LCD_RST, Delay 50]
                 @ measurement
                 @ [RmtTransmit (wire_order (getBatteryColor_rgb (current_zone (setup_ino h boot))))]"
    by (simp add: setup_ino_def led lcd setup_backlight_def boot_def trace_update_led led_ready_def)
  show "length (led_transmits (trace (setup_ino h boot))) = 1"
    by (subst tr) simp
qed

text \<open>
  \<^verbatim>\<open>spi_bus_initialize\<close> fails with \<^verbatim>\<open>ESP_FAIL\<close>, the rest succeeds, the battery reads
  1800 mV behind the divider: one yellow frame is sent, nothing goes to the display.
\<close>

theorem C8_init_failures_degrade_witness:
  "\<not> led_ready boot \<and> spi_lcd boot = None
   \<and> lcd_bus_failed (hw_ok\<lparr>spi_bus_initialize_ret := ESP_FAIL\<rparr>)
   \<and> led_init_ok (hw_ok\<lparr>spi_bus_initialize_ret := ESP_FAIL\<rparr>)
   \<and> setLedColor 255 0 0 boot = boot \<and> lcd_cmd 0x11 boot = boot \<and> lcd_data 0x55 boot = boot
   \<and> spi_transmits (trace (setup_ino (hw_ok\<lparr>spi_bus_initialize_ret := ESP_FAIL\<rparr>) boot)) = []
   \<and> current_zone (setup_ino (hw_ok\<lparr>spi_bus_initialize_ret := ESP_FAIL\<rparr>) boot) = 2
   \<and> led_transmits (trace (setup_ino (hw_ok\<lparr>spi_bus_initialize_ret := ESP_FAIL\<rparr>) boot))
       = [[255, 255, 0]]"
proof -
  let ?h = "hw_ok\<lparr>spi_bus_initialize_ret := ESP_FAIL\<rparr>"
  have hyp: "\<not> led_ready boot" "spi_lcd boot = None" "lcd_bus_failed ?h" "led_init_ok ?h"
    by (simp_all add: led_ready_def boot_def lcd_bus_failed_def led_init_ok_def hw_ok_def
        ESP_OK_def ESP_FAIL_def ESP_ERR_INVALID_STATE_def)
  have zone: "getBatteryColor_zone (- 1) (measured_level (adc ?h)) = 2"
    by (simp add: hw_ok_def level_1800 getBatteryColor_zone_def)
  show ?thesis
    using C8_init_failures_degrade [of boot 255 0 0 "0x11" "0x55" ?h] hyp zone
    by (simp add: getBatteryColor_rgb_def wire_order_def)
qed

section \<open>Properties of the encoder\<close>

lemma tick_ns_tx_cfg: "tick_ns (resolution_hz tx_cfg) = 100"
  by (simp add: tick_ns_def tx_cfg_def)

lemma decode_bit_cfg:
  "ws2812_decode_bit (resolution_hz tx_cfg) (if b then bit1 ws2812_bytes_cfg else bit0 ws2812_bytes_cfg) = Some b"
  by (simp add: ws2812_decode_bit_def tick_ns_tx_cfg ws2812_bytes_cfg_def)

lemma length_byte_bits [simp]: "length (byte_bits msb b) = 8"
  by (simp add: byte_bits_def)

lemma horner_byte: "horner_sum of_bool 2 (map (bit b) [0..<8]) = (b :: u8)"
  using take_bit_length_eq [of b] by (simp add: horner_sum_bit_eq_take_bit)

lemma decode_byte_cfg:
  "ws2812_decode_byte (resolution_hz tx_cfg)
     (map (\<lambda>b. if b then bit1 ws2812_bytes_cfg else bit0 ws2812_bytes_cfg) (byte_bits True b)) = Some b"
proof -
  let ?f = "\<lambda>b. if b then bit1 ws2812_bytes_cfg else bit0 ws2812_bytes_cfg"
  have m: "map (ws2812_decode_bit (resolution_hz tx_cfg)) (map ?f bs) = map Some bs" for bs
    by (induction bs) (simp_all add: decode_bit_cfg del: if_split)
  have "map the (map Some bs) = bs" for bs :: "bool list"
    by (induction bs) simp_all
  then show ?thesis
    unfolding ws2812_decode_byte_def Let_def m
    by (auto simp add: byte_bits_def horner_byte simp del: upt_Suc)
qed

lemma bytes_symbols_Cons:
  "bytes_symbols cfg (b # data) =
     map (\<lambda>b. if b then bit1 cfg else bit0 cfg) (byte_bits (msb_first cfg) b) @ bytes_symbols cfg data"
  by (simp add: bytes_symbols_def)

lemma bytes_symbols_Nil: "bytes_symbols cfg [] = []"
  by (simp add: bytes_symbols_def)

lemma length_bytes_symbols [simp]: "length (bytes_symbols cfg data) = 8 * length data"
  by (induction data) (simp_all add: bytes_symbols_Cons bytes_symbols_Nil)

lemma decode_bytes_symbols:
  "ws2812_decode (resolution_hz tx_cfg) (length data) (bytes_symbols ws2812_bytes_cfg data) = Some data"
proof (induction data)
  case Nil
  then show ?case by (simp add: bytes_symbols_Nil)
next
  case (Cons b data)
  have msb: "msb_first ws2812_bytes_cfg = True"
    by (simp add: ws2812_bytes_cfg_def)
  show ?case
    by (simp add: bytes_symbols_Cons msb decode_byte_cfg Cons.IH)
qed

lemma bytes_symbols_nth:
  "i < length data \<Longrightarrow> j < 8 \<Longrightarrow>
     bytes_symbols ws2812_bytes_cfg data ! (8 * i + j) =
       (if bit (data ! i) (7 - j) then bit1 ws2812_bytes_cfg else bit0 ws2812_bytes_cfg)"
proof (induction data arbitrary: i)
  case Nil
  then show ?case by simp
next
  case (Cons b data)
  have msb: "msb_first ws2812_bytes_cfg = True"
    by (simp add: ws2812_bytes_cfg_def)
  show ?case
  proof (cases i)
    case 0
    have "rev (map (bit b) [0..<8]) ! j = bit b (7 - j)"
      using Cons.prems(2) by (simp add: rev_nth del: upt_Suc)
    with 0 Cons.prems(2) show ?thesis
      by (simp add: bytes_symbols_Cons msb nth_append byte_bits_def del: upt_Suc)
  next
    case (Suc i')
    with Cons.prems have "i' < length data" by simp
    from Cons.IH [OF this Cons.prems(2)] Suc show ?thesis
      by (simp add: bytes_symbols_Cons msb nth_append)
  qed
qed

lemmas rmt_flags = RMT_ENCODING_COMPLETE_def RMT_ENCODING_MEM_FULL_def RMT_ENCODING_RESET_def

lemma resume_whole:
  "length all < mem \<Longrightarrow> rmt_encode_resume all 0 mem = (all, RMT_ENCODING_COMPLETE, 0)"
  by (simp add: rmt_encode_resume_def Let_def)

lemma resume_exact:
  "rmt_encode_resume all 0 (length all) = (all, RMT_ENCODING_COMPLETE OR RMT_ENCODING_MEM_FULL, 0)"
  by (simp add: rmt_encode_resume_def Let_def)

lemma encoder_new_Inr:
  "ws2812_encoder_new c e1 e2 = Inr enc \<Longrightarrow> enc = ws2812_new"
  by (auto simp add: ws2812_encoder_new_def ws2812_new_def split: if_splits)

lemma case1_whole:
  "1 < mem \<Longrightarrow> state ws = 1 \<Longrightarrow> last_symbol_index (copy_encoder ws) = 0 \<Longrightarrow>
     ws2812_encode_case1 ws mem encoded =
       (encoded @ [reset_code ws], RMT_ENCODING_COMPLETE, ws\<lparr>state := 0\<rparr>)"
  using resume_whole [of "[reset_code ws]" mem]
  by (simp add: ws2812_encode_case1_def rmt_encode_copy_def Let_def rmt_flags)

lemma case1_exact:
  "state ws = 1 \<Longrightarrow> last_symbol_index (copy_encoder ws) = 0 \<Longrightarrow>
     ws2812_encode_case1 ws 1 encoded =
       (encoded @ [reset_code ws], RMT_ENCODING_COMPLETE OR RMT_ENCODING_MEM_FULL, ws\<lparr>state := 0\<rparr>)"
  using resume_exact [of "[reset_code ws]"]
  by (simp add: ws2812_encode_case1_def rmt_encode_copy_def Let_def rmt_flags)

lemma encode_frame:
  assumes room: "8 * length data < mem"
  shows "ws2812_encode ws2812_new mem data =
       (bytes_symbols ws2812_bytes_cfg data @ [reset_code ws2812_new],
        if mem = 8 * length data + 1 then RMT_ENCODING_COMPLETE OR RMT_ENCODING_MEM_FULL
        else RMT_ENCODING_COMPLETE,
        ws2812_new)"
proof -
  let ?bits = "bytes_symbols ws2812_bytes_cfg data"
  have bytes: "rmt_encode_bytes (bytes_encoder ws2812_new) mem data =
      (?bits, RMT_ENCODING_COMPLETE, bytes_encoder ws2812_new)"
    using room by (simp add: rmt_encode_bytes_def ws2812_new_def resume_whole)
  let ?ws = "ws2812_new\<lparr>state := 1\<rparr>"
  have step: "ws2812_encode ws2812_new mem data = ws2812_encode_case1 ?ws (mem - 8 * length data) ?bits"
    by (simp add: ws2812_encode_def bytes Let_def rmt_flags) (simp add: ws2812_new_def)
  have ws: "state ?ws = 1" "last_symbol_index (copy_encoder ?ws) = 0" "?ws\<lparr>state := 0\<rparr> = ws2812_new"
    "reset_code ?ws = reset_code ws2812_new"
    by (simp_all add: ws2812_new_def)
  show ?thesis
  proof (cases "mem = 8 * length data + 1")
    case True
    then have "ws2812_encode ws2812_new mem data = ws2812_encode_case1 ?ws 1 ?bits"
      using step by simp
    also have "\<dots> = (?bits @ [reset_code ws2812_new],
        RMT_ENCODING_COMPLETE OR RMT_ENCODING_MEM_FULL, ws2812_new)"
      using case1_exact [OF ws(1,2), of ?bits] by (simp only: ws)
    finally show ?thesis
      using True by simp
  next
    case False
    with room have "1 < mem - 8 * length data" by simp
    from case1_whole [OF this ws(1,2), of ?bits]
    have "ws2812_encode ws2812_new mem data =
        (?bits @ [reset_code ws2812_new], RMT_ENCODING_COMPLETE, ws2812_new)"
      by (simp only: step ws)
    then show ?thesis
      using False by simp
  qed
qed

lemma cfg_symbol:
  "level0 (if b then bit1 ws2812_bytes_cfg else bit0 ws2812_bytes_cfg) = 1"
  "level1 (if b then bit1 ws2812_bytes_cfg else bit0 ws2812_bytes_cfg) = 0"
  "duration0 (if b then bit1 ws2812_bytes_cfg else bit0 ws2812_bytes_cfg) = (if b then 9 else 3)"
  "duration1 (if b then bit1 ws2812_bytes_cfg else bit0 ws2812_bytes_cfg) = (if b then 3 else 9)"
  by (simp_all add: ws2812_bytes_cfg_def)

text \<open>
  C4: with the encoder \<^verbatim>\<open>ws2812_encoder_new\<close> builds and room for a whole frame in the
  channel's symbol memory (25 symbols; \<^verbatim>\<open>setup\<close> asks for 64), one call of
  \<^verbatim>\<open>ws2812_encode\<close> on three bytes writes 25 symbols: 24 bit pulses, bit \<open>7 - j\<close> of byte
  \<open>i\<close> at position \<open>8 * i + j\<close>, then the reset symbol. It reports completion and leaves
  the encoder as it was, and reading the 24 pulses back by their nominal durations gives
  the three bytes.
\<close>

theorem C4_encode_round_trip:
  "ws2812_encoder_new ok e1 e2 = Inr enc \<and> 25 \<le> mem \<longrightarrow>
     (case ws2812_encode enc mem [b0, b1, b2] of
        (syms, ret_state, enc') \<Rightarrow>
          length syms = 25
          \<and> (\<forall>i<3. \<forall>j<8. syms ! (8 * i + j) =
                (if bit ([b0, b1, b2] ! i) (7 - j) then bit1 ws2812_bytes_cfg
                 else bit0 ws2812_bytes_cfg))
          \<and> syms ! 24 = reset_code enc
          \<and> ret_state AND RMT_ENCODING_COMPLETE \<noteq> 0
          \<and> enc' = enc
          \<and> ws2812_decode (resolution_hz tx_cfg) 3 (take 24 syms) = Some [b0, b1, b2])"
proof (intro impI, elim conjE)
  assume new: "ws2812_encoder_new ok e1 e2 = Inr enc" and mem: "25 \<le> mem"
  let ?data = "[b0, b1, b2]"
  let ?bits = "bytes_symbols ws2812_bytes_cfg ?data"
  have enc: "enc = ws2812_new"
    using new by (rule encoder_new_Inr)
  have len: "length ?bits = 24"
    by simp
  have frame: "ws2812_encode enc mem ?data =
       (?bits @ [reset_code ws2812_new],
        if mem = 25 then RMT_ENCODING_COMPLETE OR RMT_ENCODING_MEM_FULL else RMT_ENCODING_COMPLETE,
        ws2812_new)"
    using encode_frame [of ?data mem] mem enc by simp
  have nth: "\<forall>i<3. \<forall>j<8. (?bits @ [reset_code ws2812_new]) ! (8 * i + j) =
                (if bit (?data ! i) (7 - j) then bit1 ws2812_bytes_cfg else bit0 ws2812_bytes_cfg)"
  proof (intro allI impI)
    fix i j :: nat
    assume i: "i < 3" and j: "j < 8"
    then have "8 * i + j < length ?bits"
      unfolding len by simp
    then have "(?bits @ [reset_code ws2812_new]) ! (8 * i + j) = ?bits ! (8 * i + j)"
      by (simp only: nth_append if_True)
    also have "\<dots> = (if bit (?data ! i) (7 - j) then bit1 ws2812_bytes_cfg else bit0 ws2812_bytes_cfg)"
      using i j by (intro bytes_symbols_nth) simp_all
    finally show "(?bits @ [reset_code ws2812_new]) ! (8 * i + j) =
        (if bit (?data ! i) (7 - j) then bit1 ws2812_bytes_cfg else bit0 ws2812_bytes_cfg)" .
  qed
  have last: "(?bits @ [reset_code ws2812_new]) ! 24 = reset_code ws2812_new"
    using len by (metis nth_append_length)
  have tk: "take 24 (?bits @ [reset_code ws2812_new]) = ?bits"
    using len by simp
  have "ws2812_decode (resolution_hz tx_cfg) (length ?data) ?bits = Some ?data"
    by (rule decode_bytes_symbols)
  moreover have "length ?data = 3"
    by simp
  ultimately have dec: "ws2812_decode (resolution_hz tx_cfg) 3 ?bits = Some ?data"
    by (simp only:)
  show "case ws2812_encode enc mem ?data of
        (syms, ret_state, enc') \<Rightarrow>
          length syms = 25
          \<and> (\<forall>i<3. \<forall>j<8. syms ! (8 * i + j) =
                (if bit (?data ! i) (7 - j) then bit1 ws2812_bytes_cfg
                 else bit0 ws2812_bytes_cfg))
          \<and> syms ! 24 = reset_code enc
          \<and> ret_state AND RMT_ENCODING_COMPLETE \<noteq> 0
          \<and> enc' = enc
          \<and> ws2812_decode (resolution_hz tx_cfg) 3 (take 24 syms) = Some ?data"
    unfolding frame prod.case tk
    using nth last dec enc by (simp add: rmt_flags)
qed

text \<open>The bytes 0, 255, 165 with the memory \<^verbatim>\<open>setup\<close> configures.\<close>

theorem C4_encode_round_trip_witness:
  "ws2812_encoder_new True ESP_OK ESP_OK = Inr ws2812_new \<and> 25 \<le> mem_block_symbols tx_cfg
   \<and> length (fst (ws2812_encode ws2812_new (mem_block_symbols tx_cfg) [0, 255, 165])) = 25
   \<and> ws2812_decode (resolution_hz tx_cfg) 3
        (take 24 (fst (ws2812_encode ws2812_new (mem_block_symbols tx_cfg) [0, 255, 165])))
      = Some [0, 255, 165]"
  using C4_encode_round_trip [of True ESP_OK ESP_OK ws2812_new "mem_block_symbols tx_cfg" 0 255 165]
  by (simp add: ws2812_encoder_new_def ws2812_new_def tx_cfg_def split: prod.splits)

text \<open>
  C5: a tick of the channel is 100 ns. In the frame \<^verbatim>\<open>ws2812_encode\<close> writes, every bit
  pulse is high then low; for a 0 bit 3 ticks then 9 ticks (300 ns, 900 ns), for a 1 bit
  9 ticks then 3 ticks (900 ns, 300 ns). The reset symbol is low in both halves, 400 and
  400 ticks, 80,000 ns in all, which is at least 50,000 ns.
\<close>

theorem C5_pulse_durations:
  "tick_ns (resolution_hz tx_cfg) = 100
   \<and> (ws2812_encoder_new ok e1 e2 = Inr enc \<and> 25 \<le> mem \<and> i < 3 \<and> j < 8 \<longrightarrow>
        (let syms = fst (ws2812_encode enc mem [b0, b1, b2]);
             ns = tick_ns (resolution_hz tx_cfg);
             pulse = syms ! (8 * i + j);
             gap = syms ! 24
         in level0 pulse = 1 \<and> level1 pulse = 0
            \<and> (if bit ([b0, b1, b2] ! i) (7 - j)
                then duration0 pulse = 9 \<and> duration1 pulse = 3
                     \<and> duration0 pulse * ns = 900 \<and> duration1 pulse * ns = 300
                else duration0 pulse = 3 \<and> duration1 pulse = 9
                     \<and> duration0 pulse * ns = 300 \<and> duration1 pulse * ns = 900)
            \<and> length syms = 25
            \<and> level0 gap = 0 \<and> level1 gap = 0
            \<and> duration0 gap = 400 \<and> duration1 gap = 400
            \<and> (duration0 gap + duration1 gap) * ns = 80000
            \<and> 50000 \<le> (duration0 gap + duration1 gap) * ns))"
proof (intro conjI impI, goal_cases)
  case 1
  show ?case by (rule tick_ns_tx_cfg)
next
  case 2
  then have new: "enc = ws2812_new" and mem: "25 \<le> mem" and i: "i < 3" and j: "j < 8"
    by (auto dest: encoder_new_Inr)
  let ?data = "[b0, b1, b2]"
  let ?bits = "bytes_symbols ws2812_bytes_cfg ?data"
  let ?b = "bit (?data ! i) (7 - j)"
  have len: "length ?bits = 24"
    by simp
  have syms: "fst (ws2812_encode enc mem ?data) = ?bits @ [reset_code ws2812_new]"
    using encode_frame [of ?data mem] mem new by simp
  from i j have "8 * i + j < length ?bits"
    unfolding len by simp
  then have "(?bits @ [reset_code ws2812_new]) ! (8 * i + j) = ?bits ! (8 * i + j)"
    by (simp only: nth_append if_True)
  also have "\<dots> = (if ?b then bit1 ws2812_bytes_cfg else bit0 ws2812_bytes_cfg)"
    using i j by (intro bytes_symbols_nth) simp_all
  finally have pulse: "(?bits @ [reset_code ws2812_new]) ! (8 * i + j) =
      (if ?b then bit1 ws2812_bytes_cfg else bit0 ws2812_bytes_cfg)" .
  have "(?bits @ [reset_code ws2812_new]) ! 24 = reset_code ws2812_new"
    using len by (metis nth_append_length)
  then have gap: "(?bits @ [reset_code ws2812_new]) ! 24 =
      \<lparr>level0 = 0, duration0 = 400, level1 = 0, duration1 = 400\<rparr>"
    by (simp add: ws2812_new_def)
  have slen: "length (?bits @ [reset_code ws2812_new]) = 25"
    using len by simp
  show ?case
    unfolding Let_def syms tick_ns_tx_cfg pulse gap slen cfg_symbol
    by simp
qed

text \<open>The first bit of the second byte of 0, 255, 165 is a 1: 9 ticks high, 3 low.\<close>

theorem C5_pulse_durations_witness:
  "(ws2812_encoder_new True ESP_OK ESP_OK = Inr ws2812_new \<and> 25 \<le> (64 :: nat)
      \<and> (1 :: nat) < 3 \<and> (0 :: nat) < 8)
   \<and> bit ([0, 255, 165 :: u8] ! 1) (7 - 0)
   \<and> duration0 (fst (ws2812_encode ws2812_new 64 [0, 255, 165]) ! 8) = 9
   \<and> duration1 (fst (ws2812_encode ws2812_new 64 [0, 255, 165]) ! 8) = 3
   \<and> duration0 (fst (ws2812_encode ws2812_new 64 [0, 255, 165]) ! 24) = 400"
proof -
  have hyp: "ws2812_encoder_new True ESP_OK ESP_OK = Inr ws2812_new \<and> 25 \<le> (64 :: nat)
      \<and> (1 :: nat) < 3 \<and> (0 :: nat) < 8"
    by (simp add: ws2812_encoder_new_def ws2812_new_def)
  have b: "bit ([0, 255, 165 :: u8] ! 1) (7 - 0)"
    by (simp add: bit_iff_odd)
  from C5_pulse_durations [of True ESP_OK ESP_OK ws2812_new 64 1 0 0 255 165, THEN conjunct2,
      THEN mp, OF hyp] b hyp
  show ?thesis by (simp add: Let_def)
qed

section \<open>Properties of the battery level\<close>

subsection \<open>Rounding to single precision is monotone\<close>

lemma round_even_of_int [simp]: "round_even (of_int n) = n"
  by (simp add: round_even_def)

lemma round_even_zero [simp]: "round_even 0 = 0"
  using round_even_of_int [of 0] by simp

lemma round_even_floor: "\<lfloor>q\<rfloor> \<le> round_even q" "round_even q \<le> \<lfloor>q\<rfloor> + 1"
  by (simp_all add: round_even_def Let_def)

lemma round_even_mono: "q \<le> r \<Longrightarrow> round_even q \<le> round_even r"
proof -
  assume le: "q \<le> r"
  then have fl: "\<lfloor>q\<rfloor> \<le> \<lfloor>r\<rfloor>"
    by (rule floor_mono)
  show ?thesis
  proof (cases "\<lfloor>q\<rfloor> = \<lfloor>r\<rfloor>")
    case True
    with le show ?thesis
      by (auto simp add: round_even_def Let_def)
  next
    case False
    with fl have "\<lfloor>q\<rfloor> + 1 \<le> \<lfloor>r\<rfloor>" by simp
    with round_even_floor(2) [of q] round_even_floor(1) [of r] show ?thesis
      by linarith
  qed
qed

lemma round_even_minus: "round_even (- q) = - round_even q"
proof (cases "q = of_int \<lfloor>q\<rfloor>")
  case True
  then obtain n where "q = of_int n" ..
  then show ?thesis
    by (simp flip: of_int_minus)
next
  case False
  then have fl: "\<lfloor>- q\<rfloor> = - \<lfloor>q\<rfloor> - 1"
    by (metis ceiling_altdef ceiling_def add_diff_cancel_right' minus_diff_eq uminus_add_conv_diff)
  show ?thesis
    unfolding round_even_def Let_def fl
    by (auto simp add: algebra_simps)
qed

lemma bitlen_pos: "0 < n \<Longrightarrow> 1 \<le> bitlen n"
  by (simp add: bitlen_alt_def)

lemma binade_bounds:
  assumes "0 < x"
  shows "2 powi binade x \<le> x" and "x < 2 powi (binade x + 1)"
proof -
  have "2 powi binade x \<le> x \<and> x < 2 powi (binade x + 1)"
  proof (cases "1 \<le> x")
    case True
    define n where "n = \<lfloor>x\<rfloor>"
    define b where "b = bitlen n"
    from True have n: "0 < n"
      by (simp add: n_def)
    then have b: "1 \<le> b"
      unfolding b_def by (rule bitlen_pos)
    from bitlen_bounds [OF n] have lo: "2 ^ nat (b - 1) \<le> n" and hi: "n < 2 ^ nat b"
      by (simp_all add: b_def)
    have e: "binade x = b - 1"
      using True by (simp add: binade_def n_def b_def)
    have "(2 :: rat) powi (b - 1) = of_int (2 ^ nat (b - 1))"
      using b by (simp add: power_int_def)
    also have "\<dots> \<le> of_int n"
      using lo by (simp only: of_int_le_iff)
    also have "\<dots> \<le> x"
      by (simp add: n_def)
    finally have 1: "2 powi (b - 1) \<le> x" .
    from hi have "n + 1 \<le> 2 ^ nat b"
      by simp
    then have "(of_int (n + 1) :: rat) \<le> of_int (2 ^ nat b)"
      by (simp only: of_int_le_iff)
    moreover have "x < of_int (n + 1)"
      using floor_correct [of x] by (simp add: n_def)
    moreover have "(2 :: rat) powi b = of_int (2 ^ nat b)"
      using b by (simp add: power_int_def)
    ultimately have 2: "x < 2 powi b"
      by simp
    from 1 2 show ?thesis
      by (simp add: e)
  next
    case False
    define m where "m = \<lceil>1 / x\<rceil> - 1"
    define k where "k = bitlen m"
    from False assms have "1 < 1 / x"
      by simp
    then have "1 < \<lceil>1 / x\<rceil>"
      by (simp add: less_ceiling_iff)
    then have m: "0 < m"
      by (simp add: m_def)
    then have k: "1 \<le> k"
      unfolding k_def by (rule bitlen_pos)
    from bitlen_bounds [OF m] have lo: "2 ^ nat (k - 1) \<le> m" and hi: "m < 2 ^ nat k"
      by (simp_all add: k_def)
    have e: "binade x = - k"
      using False by (simp add: binade_def m_def k_def)
    have mx: "of_int m < 1 / x" "1 / x \<le> of_int (m + 1)"
      using ceiling_correct [of "1 / x"] by (simp_all add: m_def)
    from hi have "m + 1 \<le> 2 ^ nat k"
      by simp
    then have "(of_int (m + 1) :: rat) \<le> of_int (2 ^ nat k)"
      by (simp only: of_int_le_iff)
    then have "(of_int (m + 1) :: rat) \<le> 2 ^ nat k"
      by simp
    with mx(2) have "1 / x \<le> 2 ^ nat k"
      by (rule order_trans)
    with assms have "1 \<le> 2 ^ nat k * x"
      by (simp add: field_simps)
    then have "1 / 2 ^ nat k \<le> x"
      by (simp add: field_simps)
    moreover have "(2 :: rat) powi (- k) = 1 / 2 ^ nat k"
      using k by (simp add: power_int_def field_simps)
    ultimately have 1: "2 powi (- k) \<le> x"
      by simp
    from lo have "(of_int (2 ^ nat (k - 1)) :: rat) \<le> of_int m"
      by (simp only: of_int_le_iff)
    then have "(2 :: rat) ^ nat (k - 1) \<le> of_int m"
      by simp
    from this mx(1) have "2 ^ nat (k - 1) < 1 / x"
      by (rule le_less_trans)
    with assms have "2 ^ nat (k - 1) * x < 1"
      by (simp add: field_simps)
    then have "x < 1 / 2 ^ nat (k - 1)"
      by (simp add: field_simps)
    moreover have "(2 :: rat) powi (- k + 1) = 1 / 2 ^ nat (k - 1)"
    proof (cases "k = 1")
      case True
      then show ?thesis by simp
    next
      case False
      with k have "- k + 1 < 0" "nat (- (- k + 1)) = nat (k - 1)"
        by simp_all
      then show ?thesis
        by (simp add: power_int_def field_simps)
    qed
    ultimately have 2: "x < 2 powi (- k + 1)"
      by simp
    from 1 2 show ?thesis
      by (simp add: e)
  qed
  then show "2 powi binade x \<le> x" and "x < 2 powi (binade x + 1)"
    by simp_all
qed

lemma powi2_mono: "a \<le> b \<Longrightarrow> (2 :: rat) powi a \<le> 2 powi b"
  by (rule power_int_increasing) simp_all

lemma powi2_less_imp: "(2 :: rat) powi a < 2 powi b \<Longrightarrow> a < b"
  using powi2_mono [of b a] by (cases "a < b") auto

lemma binade_mono:
  assumes "0 < x" "x \<le> y"
  shows "binade x \<le> binade y"
proof -
  have "2 powi binade x \<le> x"
    using assms(1) by (rule binade_bounds)
  also note assms(2)
  also have "y < 2 powi (binade y + 1)"
    using assms by (intro binade_bounds) simp
  finally have "binade x < binade y + 1"
    by (rule powi2_less_imp)
  then show ?thesis by simp
qed

lemma powi2_pos [simp]: "0 < (2 :: rat) powi a"
  by (simp add: power_int_def)

lemma f32_minus: "f32 (- x) = - f32 x"
  by (simp add: f32_def Let_def round_even_minus)

lemma f32_nonneg: "0 \<le> x \<Longrightarrow> 0 \<le> f32 x"
proof -
  assume x: "0 \<le> x"
  have "0 \<le> round_even (x / 2 powi a)" for a
    using round_even_mono [of 0 "x / 2 powi a"] x by simp
  then show ?thesis
    by (simp add: f32_def Let_def)
qed

lemma f32_mono_pos:
  assumes x: "0 < x" and le: "x \<le> y"
  shows "f32 x \<le> f32 y"
proof -
  define ex where "ex = max (binade x) (- 126)"
  define ey where "ey = max (binade y) (- 126)"
  define ux :: rat where "ux = 2 powi (ex - 23)"
  define uy :: rat where "uy = 2 powi (ey - 23)"
  from x le have y: "0 < y"
    by simp
  have fx: "f32 x = of_int (round_even (x / ux)) * ux"
    using x by (simp add: f32_def Let_def ex_def ux_def)
  have fy: "f32 y = of_int (round_even (y / uy)) * uy"
    using y by (simp add: f32_def Let_def ey_def uy_def)
  have ux: "0 < ux" and uy: "0 < uy"
    by (simp_all add: ux_def uy_def)
  have exy: "ex \<le> ey"
    using binade_mono [OF x le] by (simp add: ex_def ey_def)
  show ?thesis
  proof (cases "ex = ey")
    case True
    then have u: "ux = uy"
      by (simp add: ux_def uy_def)
    from le uy have "x / uy \<le> y / uy"
      by (simp add: divide_right_mono)
    then have "round_even (x / uy) \<le> round_even (y / uy)"
      by (rule round_even_mono)
    then have "(of_int (round_even (x / uy)) :: rat) \<le> of_int (round_even (y / uy))"
      by (simp only: of_int_le_iff)
    with uy show ?thesis
      unfolding fx fy u by (simp add: mult_right_mono)
  next
    case False
    with exy have lt: "ex + 1 \<le> ey"
      by simp
    moreover have "- 126 \<le> ex"
      by (simp add: ex_def)
    ultimately have by_eq: "binade y = ey"
      by (simp add: ey_def max_def split: if_splits)
    have "x < 2 powi (binade x + 1)"
      using x by (rule binade_bounds)
    also have "\<dots> \<le> 2 powi (ex + 1)"
      by (rule powi2_mono) (simp add: ex_def)
    finally have xb: "x \<le> 2 powi (ex + 1)"
      by simp
    have r24: "2 powi (ex + 1) / ux = of_int (2 ^ 24)"
      by (simp add: ux_def power_int_diff [symmetric])
    from xb ux have "x / ux \<le> 2 powi (ex + 1) / ux"
      by (simp add: divide_right_mono)
    then have "round_even (x / ux) \<le> round_even (2 powi (ex + 1) / ux)"
      by (rule round_even_mono)
    then have "round_even (x / ux) \<le> 2 ^ 24"
      unfolding r24 round_even_of_int .
    then have "(of_int (round_even (x / ux)) :: rat) \<le> of_int (2 ^ 24)"
      by (simp only: of_int_le_iff)
    with ux have "f32 x \<le> of_int (2 ^ 24) * ux"
      unfolding fx by (simp add: mult_right_mono)
    also have "\<dots> = 2 powi (ex + 1)"
      using r24 ux by (simp add: field_simps)
    finally have lo: "f32 x \<le> 2 powi (ex + 1)" .
    have yb: "2 powi ey \<le> y"
      using binade_bounds(1) [OF y] by (simp add: by_eq)
    have r23: "2 powi ey / uy = of_int (2 ^ 23)"
      by (simp add: uy_def power_int_diff [symmetric])
    from yb uy have "2 powi ey / uy \<le> y / uy"
      by (simp add: divide_right_mono)
    then have "round_even (2 powi ey / uy) \<le> round_even (y / uy)"
      by (rule round_even_mono)
    then have "2 ^ 23 \<le> round_even (y / uy)"
      unfolding r23 round_even_of_int .
    then have "(of_int (2 ^ 23) :: rat) \<le> of_int (round_even (y / uy))"
      by (simp only: of_int_le_iff)
    with uy have "of_int (2 ^ 23) * uy \<le> f32 y"
      unfolding fy by (simp add: mult_right_mono)
    moreover have "of_int (2 ^ 23) * uy = 2 powi ey"
      using r23 uy by (simp add: field_simps)
    ultimately have hi: "2 powi ey \<le> f32 y"
      by simp
    have "(2 :: rat) powi (ex + 1) \<le> 2 powi ey"
      using lt by (rule powi2_mono)
    with lo hi show ?thesis
      by linarith
  qed
qed

lemma f32_mono: "x \<le> y \<Longrightarrow> f32 x \<le> f32 y"
proof -
  assume le: "x \<le> y"
  consider "0 < x" | "x \<le> 0" "0 \<le> y" | "y < 0"
    using le by linarith
  then show ?thesis
  proof cases
    case 1
    then show ?thesis using le by (rule f32_mono_pos)
  next
    case 2
    from 2(1) have "0 \<le> f32 (- x)"
      by (intro f32_nonneg) simp
    then have "f32 x \<le> 0"
      by (simp add: f32_minus)
    also have "0 \<le> f32 y"
      using 2(2) by (rule f32_nonneg)
    finally show ?thesis .
  next
    case 3
    with le have "0 < - y" "- y \<le> - x"
      by simp_all
    then have "f32 (- y) \<le> f32 (- x)"
      by (rule f32_mono_pos)
    then show ?thesis
      by (simp add: f32_minus)
  qed
qed

subsection \<open>The level as a function of the voltage\<close>

lemma f32_consts:
  "f32 0 = 0" "f32 1 = 1" "f32 3 = 3" "f32 100 = 100"
  "BATTERY_MIN_V = 3" "BATTERY_MAX_V = 4404019 / 1048576"
  unfolding BATTERY_MIN_V_def BATTERY_MAX_V_def by code_simp+

lemma battery_span: "f32 (BATTERY_MAX_V - BATTERY_MIN_V) = 1258291 / 1048576"
  unfolding BATTERY_MIN_V_def BATTERY_MAX_V_def by code_simp

lemma float_to_int_mono: "x \<le> y \<Longrightarrow> float_to_int x \<le> float_to_int y"
proof -
  assume le: "x \<le> y"
  consider "0 \<le> x" | "x < 0" "0 \<le> y" | "x < 0" "y < 0"
    by linarith
  then show ?thesis
  proof cases
    case 1
    with le show ?thesis
      by (simp add: float_to_int_def floor_mono)
  next
    case 2
    from 2(1) have "\<lceil>x\<rceil> \<le> 0"
      by (simp add: ceiling_le_iff)
    moreover from 2(2) have "0 \<le> \<lfloor>y\<rfloor>"
      by simp
    ultimately have "\<lceil>x\<rceil> \<le> \<lfloor>y\<rfloor>"
      by (rule order_trans)
    then show ?thesis
      using 2 by (simp add: float_to_int_def)
  next
    case 3
    with le show ?thesis
      by (simp add: float_to_int_def ceiling_mono)
  qed
qed

lemma constrain_mono: "a \<le> b \<Longrightarrow> constrain a 0 100 \<le> constrain b 0 100"
  by (simp add: constrain_def)

lemma constrain_range: "0 \<le> constrain a 0 100" "constrain a 0 100 \<le> 100"
  by (simp_all add: constrain_def)

lemma float_mono: "v \<le> v' \<Longrightarrow> getBatteryLevel_float v \<le> getBatteryLevel_float v'"
proof -
  assume le: "v \<le> v'"
  let ?D = "f32 (BATTERY_MAX_V - BATTERY_MIN_V)"
  have D: "0 < ?D"
    unfolding battery_span by simp
  from le have "f32 (v - BATTERY_MIN_V) \<le> f32 (v' - BATTERY_MIN_V)"
    by (intro f32_mono) simp
  with D have "f32 (v - BATTERY_MIN_V) / ?D \<le> f32 (v' - BATTERY_MIN_V) / ?D"
    by (simp add: divide_right_mono)
  then have "f32 (f32 (v - BATTERY_MIN_V) / ?D) \<le> f32 (f32 (v' - BATTERY_MIN_V) / ?D)"
    by (rule f32_mono)
  then have "f32 (f32 (v - BATTERY_MIN_V) / ?D) * f32 100
      \<le> f32 (f32 (v' - BATTERY_MIN_V) / ?D) * f32 100"
    by (simp add: f32_consts)
  then show ?thesis
    unfolding getBatteryLevel_float_def by (rule f32_mono)
qed

lemma level_mono: "v \<le> v' \<Longrightarrow> getBatteryLevel_level v \<le> getBatteryLevel_level v'"
  unfolding getBatteryLevel_level_def Let_def
  by (intro constrain_mono float_to_int_mono float_mono)

text \<open>
  Whatever the eight samples, the \<^verbatim>\<open>float\<close> converted on line 75 lies within the range
  of \<^verbatim>\<open>int\<close>, far below the overflow threshold of single precision: the conversion is
  defined, and leaving infinities out of \<open>f32\<close> loses nothing.
\<close>

lemma c_div_8_bounds:
  assumes "- (2 ^ 31) \<le> a" "a < 2 ^ 31"
  shows "- (2 ^ 28) \<le> c_div a 8" "c_div a 8 \<le> 2 ^ 28"
proof -
  from assms have "\<bar>a\<bar> \<le> 2147483648"
    by simp
  then have "\<bar>a\<bar> div 8 \<le> 2147483648 div 8"
    by (rule zdiv_mono1) simp
  then have up: "\<bar>a\<bar> div 8 \<le> 268435456"
    by simp
  have lo: "0 \<le> \<bar>a\<bar> div 8"
    by simp
  consider "0 < a" | "a = 0" | "a < 0"
    by linarith
  then have "- 268435456 \<le> c_div a 8 \<and> c_div a 8 \<le> 268435456"
  proof cases
    case 1
    then have "c_div a 8 = \<bar>a\<bar> div 8"
      by (simp add: c_div_def)
    with up lo show ?thesis
      by linarith
  next
    case 2
    then show ?thesis
      by (simp add: c_div_def)
  next
    case 3
    then have "c_div a 8 = - (\<bar>a\<bar> div 8)"
      by (simp add: c_div_def)
    with up lo show ?thesis
      by linarith
  qed
  then show "- (2 ^ 28) \<le> c_div a 8" "c_div a 8 \<le> 2 ^ 28"
    by simp_all
qed

lemma voltage_of_average_mono: "a \<le> b \<Longrightarrow> voltage_of_average a \<le> voltage_of_average b"
proof -
  assume "a \<le> b"
  then have "f32 (of_int a) \<le> f32 (of_int b)"
    by (intro f32_mono) simp
  moreover have two: "f32 2 = 2" and k: "f32 1000 = 1000"
    by code_simp+
  ultimately have "f32 (of_int a) * f32 2 \<le> f32 (of_int b) * f32 2"
    by simp
  then have "f32 (f32 (of_int a) * f32 2) \<le> f32 (f32 (of_int b) * f32 2)"
    by (rule f32_mono)
  then have "f32 (f32 (of_int a) * f32 2) / f32 1000 \<le> f32 (f32 (of_int b) * f32 2) / f32 1000"
    by (simp add: k divide_right_mono)
  then show ?thesis
    unfolding voltage_of_average_def by (rule f32_mono)
qed

lemma float_ends:
  "getBatteryLevel_float (voltage_of_average (- (2 ^ 28))) = - 44739504"
  "getBatteryLevel_float (voltage_of_average (2 ^ 28)) = 44739004"
  unfolding voltage_of_average_def getBatteryLevel_float_def BATTERY_MIN_V_def BATTERY_MAX_V_def
  by code_simp+

lemma float_in_int_range:
  "- (2 ^ 31) < getBatteryLevel_float (getBatteryLevel_voltage reads)"
  "getBatteryLevel_float (getBatteryLevel_voltage reads) < 2 ^ 31"
proof -
  define a where "a = c_div (sint (getBatteryLevel_sum reads)) 8"
  have v: "getBatteryLevel_voltage reads = voltage_of_average a"
    by (simp add: getBatteryLevel_voltage_def voltage_of_average_def a_def)
  have "- (2 ^ 31) \<le> sint (getBatteryLevel_sum reads)" "sint (getBatteryLevel_sum reads) < 2 ^ 31"
    using sint_ge [of "getBatteryLevel_sum reads"] sint_lt [of "getBatteryLevel_sum reads"]
    by simp_all
  then have a: "- (2 ^ 28) \<le> a" "a \<le> 2 ^ 28"
    unfolding a_def by (rule c_div_8_bounds)+
  have "getBatteryLevel_float (voltage_of_average (- (2 ^ 28)))
      \<le> getBatteryLevel_float (voltage_of_average a)"
    using a(1) by (intro float_mono voltage_of_average_mono)
  then show "- (2 ^ 31) < getBatteryLevel_float (getBatteryLevel_voltage reads)"
    unfolding v float_ends by simp
  have "getBatteryLevel_float (voltage_of_average a)
      \<le> getBatteryLevel_float (voltage_of_average (2 ^ 28))"
    using a(2) by (intro float_mono voltage_of_average_mono)
  then show "getBatteryLevel_float (getBatteryLevel_voltage reads) < 2 ^ 31"
    unfolding v float_ends by simp
qed

lemma level_at_min: "getBatteryLevel_level 3 = 0"
  by code_simp

lemma level_at_max: "getBatteryLevel_level BATTERY_MAX_V = 100"
  unfolding BATTERY_MAX_V_def by code_simp

lemma level_range: "0 \<le> getBatteryLevel_level v" "getBatteryLevel_level v \<le> 100"
  by (simp_all add: getBatteryLevel_level_def Let_def constrain_range)

lemma level_empty: "v \<le> 3 \<Longrightarrow> getBatteryLevel_level v = 0"
  using level_mono [of v 3] level_range(1) [of v] by (simp add: level_at_min)

lemma level_full: "BATTERY_MAX_V \<le> v \<Longrightarrow> getBatteryLevel_level v = 100"
  using level_mono [of BATTERY_MAX_V v] level_range(2) [of v] by (simp add: level_at_max)

text \<open>
  C6: for the voltage \<open>V\<close> that \<^verbatim>\<open>getBatteryLevel\<close> computes from its samples (and for
  any other value of the \<^verbatim>\<open>float voltage\<close>), the level returned is 0 when \<open>V \<le> 3.0\<close>, it
  is 100 when \<open>V \<ge> 4.2\<close> (already from the single-precision constant \<^verbatim>\<open>4.2f\<close> on), it is
  always between 0 and 100, and it does not decrease when \<open>V\<close> increases.
\<close>

theorem C6_level_of_voltage:
  "(let V = getBatteryLevel_voltage reads; level = fst (getBatteryLevel reads s)
    in (V \<le> 3 \<longrightarrow> level = 0) \<and> (42 / 10 \<le> V \<longrightarrow> level = 100)
       \<and> (BATTERY_MAX_V \<le> V \<longrightarrow> level = 100)
       \<and> 0 \<le> level \<and> level \<le> 100)
   \<and> (getBatteryLevel_voltage reads \<le> getBatteryLevel_voltage reads' \<longrightarrow>
        fst (getBatteryLevel reads s) \<le> fst (getBatteryLevel reads' s'))
   \<and> (v \<le> v' \<longrightarrow> getBatteryLevel_level v \<le> getBatteryLevel_level v')"
proof -
  have "BATTERY_MAX_V \<le> 42 / 10"
    by (simp add: f32_consts)
  then have "42 / 10 \<le> V \<Longrightarrow> BATTERY_MAX_V \<le> V" for V
    by simp
  then show ?thesis
    by (simp add: getBatteryLevel_def Let_def level_empty level_full level_range level_mono)
qed

text \<open>
  Constant samples of 1500, 1800, 2000, 2100 and 2200 mV behind the divider: 3.0 V is
  level 0, \<^verbatim>\<open>4.2f\<close> and 4.4 V are level 100, and 3.6 V is not above 4.0 V.
\<close>

theorem C6_level_of_voltage_witness:
  "getBatteryLevel_voltage (constant_samples 1500) \<le> 3
   \<and> 42 / 10 \<le> getBatteryLevel_voltage (constant_samples 2200)
   \<and> BATTERY_MAX_V \<le> getBatteryLevel_voltage (constant_samples 2100)
   \<and> getBatteryLevel_voltage (constant_samples 1800) \<le> getBatteryLevel_voltage (constant_samples 2000)
   \<and> (33 / 10 :: rat) \<le> 4
   \<and> fst (getBatteryLevel (constant_samples 1500) boot) = 0
   \<and> fst (getBatteryLevel (constant_samples 2200) boot) = 100
   \<and> fst (getBatteryLevel (constant_samples 2100) boot) = 100
   \<and> fst (getBatteryLevel (constant_samples 1800) boot) \<le> fst (getBatteryLevel (constant_samples 2000) boot)
   \<and> getBatteryLevel_level (33 / 10) \<le> getBatteryLevel_level 4"
proof -
  have v: "getBatteryLevel_voltage (constant_samples 1500) = 3"
    "getBatteryLevel_voltage (constant_samples 2200) = 9227469 / 2097152"
    "getBatteryLevel_voltage (constant_samples 2100) = 4404019 / 1048576"
    "getBatteryLevel_voltage (constant_samples 1800) = 7549747 / 2097152"
    "getBatteryLevel_voltage (constant_samples 2000) = 4"
    by code_simp+
  show ?thesis
    using C6_level_of_voltage [of "constant_samples 1500" boot "constant_samples 1500" boot 0 0]
      C6_level_of_voltage [of "constant_samples 2200" boot "constant_samples 2200" boot 0 0]
      C6_level_of_voltage [of "constant_samples 2100" boot "constant_samples 2100" boot 0 0]
      C6_level_of_voltage [of "constant_samples 1800" boot "constant_samples 2000" boot "33 / 10" 4]
    by (simp add: v Let_def f32_consts)
qed

end
